theory Spec2Isabelle
  imports Complex_Main "HOL-Library.AList"
begin

section \<open>Exceptions\<close>

text \<open>
  The Python exceptions that the modelled code can raise. A function that may raise
  returns a pair: the exception (\<open>None\<close> when it returns normally) and the state as the
  in-place mutations left it, since the caller's \<open>except\<close> clause continues from that state.
\<close>

datatype error = UnicodeDecodeError | IndexError | ValueError | ZeroDivisionError | KeyError | OSError

section \<open>CircularBuffer (subplot\_record.py, lines 11--28)\<close>

text \<open>
  \<open>capacity\<close> and \<open>index\<close> are natural numbers: \<open>index\<close> starts at 0 and is only
  ever assigned a remainder modulo \<open>capacity\<close>, and \<open>np.zeros\<close> refuses a negative
  capacity. The numpy array \<open>buffer\<close> is a list of samples.
\<close>

record 'v CircularBuffer =
  capacity :: nat
  buffer :: "'v list"
  index :: nat
  full :: bool

definition CircularBuffer_init :: "nat \<Rightarrow> ('v::zero) CircularBuffer" where
  "CircularBuffer_init c =
     \<lparr>capacity = c, buffer = replicate c 0, index = 0, full = False\<rparr>"

text \<open>
  \<open>push\<close>: the store \<open>self.buffer[self.index] = value\<close> raises IndexError outside the
  array; the remainder raises ZeroDivisionError for capacity 0, after the store was done.
\<close>

definition push :: "'v \<Rightarrow> 'v CircularBuffer \<Rightarrow> error option \<times> 'v CircularBuffer" where
  "push v b =
     (if index b < length (buffer b) then
        (let b1 = b\<lparr>buffer := (buffer b)[index b := v]\<rparr> in
         if capacity b1 = 0 then (Some ZeroDivisionError, b1)
         else
           (let b2 = b1\<lparr>index := (index b1 + 1) mod capacity b1\<rparr> in
            if index b2 = 0 then (None, b2\<lparr>full := True\<rparr>) else (None, b2)))
      else (Some IndexError, b))"

definition get_data :: "'v CircularBuffer \<Rightarrow> 'v list" where
  "get_data b =
     (if full b then drop (index b) (buffer b) @ take (index b) (buffer b)
      else take (index b) (buffer b))"

text \<open>A sequence of \<open>push\<close> calls on one buffer, stopping at the first exception.\<close>

fun push_all :: "'v list \<Rightarrow> 'v CircularBuffer \<Rightarrow> error option \<times> 'v CircularBuffer" where
  "push_all [] b = (None, b)"
| "push_all (x # xs) b =
     (case push x b of
        (None, b') \<Rightarrow> push_all xs b'
      | (Some e, b') \<Rightarrow> (Some e, b'))"

section \<open>Python string operations used by the line reader\<close>

text \<open>
  A decoded line is a \<open>string\<close> whose characters are code points below 256.
  \<open>py_isspace\<close> lists the code points in that range that \<open>str.strip()\<close> removes.
\<close>

definition py_isspace :: "char \<Rightarrow> bool" where
  "py_isspace c \<longleftrightarrow>
     (of_char c :: nat) \<in> set [9, 10, 11, 12, 13, 28, 29, 30, 31, 32, 133, 160]"

definition str_strip :: "string \<Rightarrow> string" where
  "str_strip s = rev (dropWhile py_isspace (rev (dropWhile py_isspace s)))"

text \<open>\<open>s.split(c)\<close> for a one-character separator: never an empty list.\<close>

fun str_split :: "char \<Rightarrow> string \<Rightarrow> string list" where
  "str_split c [] = [[]]"
| "str_split c (x # xs) =
     (if x = c then [] # str_split c xs
      else (case str_split c xs of
              [] \<Rightarrow> [[x]]
            | p # ps \<Rightarrow> (x # p) # ps))"

section \<open>SerialPlotterWindow (subplot\_record.py, lines 30--190)\<close>

text \<open>
  A Python dict is an association list in insertion order; \<open>d[k] = v\<close> is
  \<^const>\<open>AList.update\<close>, which overwrites in place or appends a new key at the end.
  The fields of the window that belong to the toolkit (widgets, layout, serial port handle)
  are left out. \<open>plot_data_items\<close> holds, per graph, the data last handed to \<open>setData\<close>;
  \<open>stdout\<close> holds what \<open>print\<close> wrote.
\<close>

type_synonym 'v pydict = "(string \<times> 'v) list"

datatype printed = Raw_line string | Error_parsing_line error | Export_error error

datatype message_box = Information string string | Warning string string

datatype 'v cell = Name string | Num 'v

record 'v window =
  data_buffers :: "'v CircularBuffer list"
  plot_data_items :: "'v list list"
  sample_index :: int
  buffer_sizes :: "nat list"
  buffer_capacity :: nat
  data_records :: "(int \<times> 'v pydict) list"
  current_record :: "'v pydict"
  ppg_updated :: bool
  acc_updated :: bool
  sample_count :: int
  stdout :: "printed list"

definition channels :: "string list" where
  "channels = [''C'', ''R'', ''IR'', ''G'', ''X'', ''Y'', ''Z'']"

definition ppg_names :: "string list" where
  "ppg_names = [''C'', ''R'', ''IR'', ''G'']"

definition acc_names :: "string list" where
  "acc_names = [''X'', ''Y'', ''Z'']"

definition sensor_map :: "(string \<times> nat) list" where
  "sensor_map = [(''C'', 0), (''R'', 1), (''IR'', 2), (''G'', 3), (''X'', 4), (''Y'', 5), (''Z'', 6)]"

text \<open>\<open>__init__\<close>, lines 31--56.\<close>

definition window_init :: "('v::zero) window" where
  "window_init =
     \<lparr>data_buffers = [], plot_data_items = [], sample_index = 0,
      buffer_sizes = [1000, 3000, 5000, 7000, 10000], buffer_capacity = 1000,
      data_records = [],
      current_record = [(''C'', 0), (''R'', 0), (''IR'', 0), (''G'', 0), (''X'', 0), (''Y'', 0), (''Z'', 0)],
      ppg_updated = False, acc_updated = False, sample_count = 0, stdout = []\<rparr>"

text \<open>\<open>add_graph\<close>, lines 85--89: a fresh buffer and the plot of its (empty) data.\<close>

definition add_graph :: "('v::zero) window \<Rightarrow> 'v window" where
  "add_graph w =
     (let data_buffer = CircularBuffer_init (buffer_capacity w) in
      w\<lparr>data_buffers := data_buffers w @ [data_buffer],
        plot_data_items := plot_data_items w @ [get_data data_buffer]\<rparr>)"

text \<open>The window as the main program builds it (lines 234--243): seven graphs.\<close>

definition main_window :: "('v::zero) window" where
  "main_window =
     add_graph (add_graph (add_graph (add_graph (add_graph (add_graph (add_graph window_init))))))"

subsection \<open>receive\_serial\_data (lines 92--145)\<close>

text \<open>
  The two builtins the reader calls are parameters of the model: \<open>dec\<close> is
  \<open>bytes.decode("utf-8")\<close> (\<open>None\<close> when it raises UnicodeDecodeError) and \<open>flt\<close> is
  \<open>float\<close> on a string (\<open>None\<close> when it raises ValueError). The sample type \<open>'v\<close> has a
  zero, and \<open>value != 0\<close> is \<open>v \<noteq> 0\<close>.

  The body of the loop over the comma-separated fields has two parts. \<open>token_of\<close> is the
  parse of one field (lines 106--109): no colon, an exception, or a name and a value.
  \<open>sensor_data[1]\<close> raises IndexError on a list shorter than two.
\<close>

datatype 'v token = No_colon | Raises error | Field string 'v

definition token_of :: "(string \<Rightarrow> 'v option) \<Rightarrow> string \<Rightarrow> 'v token" where
  "token_of flt val =
     (if CHR '':'' \<in> set val then
        (case str_split CHR '':'' val of
           n # v # _ \<Rightarrow>
             (let sensor_name = str_strip n in
              case flt v of
                None \<Rightarrow> Raises ValueError
              | Some sensor_value \<Rightarrow> Field sensor_name sensor_value)
         | _ \<Rightarrow> Raises IndexError)
      else No_colon)"

text \<open>
  \<open>apply_field\<close> is the rest of the body (lines 112--127), on the loop's two local flags
  and the window: the store into the current record, the group of the name, the push
  into the plot buffer of a known name.
\<close>

definition apply_field ::
  "string \<Rightarrow> 'v \<Rightarrow> bool \<times> bool \<times> 'v window \<Rightarrow> error option \<times> bool \<times> bool \<times> 'v window" where
  "apply_field sensor_name sensor_value st =
     (case st of (is_ppg_data, is_acc_data, w) \<Rightarrow>
        (let w1 = w\<lparr>current_record :=
                     AList.update sensor_name sensor_value (current_record w)\<rparr>;
             is_ppg1 = (if sensor_name \<in> set ppg_names then True else is_ppg_data);
             is_acc1 = (if sensor_name \<in> set ppg_names then is_acc_data
                        else if sensor_name \<in> set acc_names then True
                        else is_acc_data)
         in case map_of sensor_map sensor_name of
              None \<Rightarrow> (None, is_ppg1, is_acc1, w1)
            | Some buffer_index \<Rightarrow>
               if buffer_index < length (data_buffers w1) then
                 (case push sensor_value (data_buffers w1 ! buffer_index) of
                    (Some e, b) \<Rightarrow>
                      (Some e, is_ppg1, is_acc1,
                       w1\<lparr>data_buffers := (data_buffers w1)[buffer_index := b]\<rparr>)
                  | (None, b) \<Rightarrow>
                     (let w2 = w1\<lparr>data_buffers := (data_buffers w1)[buffer_index := b]\<rparr>
                      in if buffer_index < length (plot_data_items w2) then
                           (None, is_ppg1, is_acc1,
                            w2\<lparr>plot_data_items :=
                                 (plot_data_items w2)[buffer_index := get_data b]\<rparr>)
                         else (Some IndexError, is_ppg1, is_acc1, w2)))
               else (None, is_ppg1, is_acc1, w1)))"

definition process_value ::
  "(string \<Rightarrow> 'v option) \<Rightarrow> string \<Rightarrow> bool \<times> bool \<times> 'v window
     \<Rightarrow> error option \<times> bool \<times> bool \<times> 'v window" where
  "process_value flt val st =
     (case token_of flt val of
        No_colon \<Rightarrow> (None, st)
      | Raises e \<Rightarrow> (Some e, st)
      | Field sensor_name sensor_value \<Rightarrow> apply_field sensor_name sensor_value st)"

text \<open>The \<open>for value in values\<close> loop: an exception leaves the loop at once.\<close>

fun values_loop ::
  "(string \<Rightarrow> 'v option) \<Rightarrow> string list \<Rightarrow> bool \<times> bool \<times> 'v window
     \<Rightarrow> error option \<times> bool \<times> bool \<times> 'v window" where
  "values_loop flt [] st = (None, st)"
| "values_loop flt (val # vals) st =
     (case process_value flt val st of
        (None, st') \<Rightarrow> values_loop flt vals st'
      | (Some e, st') \<Rightarrow> (Some e, st'))"

text \<open>Lines 130--133.\<close>

definition update_flags :: "bool \<Rightarrow> bool \<Rightarrow> 'v window \<Rightarrow> 'v window" where
  "update_flags is_ppg_data is_acc_data w =
     (let w1 = (if is_ppg_data then w\<lparr>ppg_updated := True\<rparr> else w)
      in if is_acc_data then w1\<lparr>acc_updated := True\<rparr> else w1)"

text \<open>Lines 136--142.\<close>

definition store_record :: "('v::zero) window \<Rightarrow> 'v window" where
  "store_record w =
     (if ppg_updated w \<and> acc_updated w then
        if list_all (\<lambda>v. v \<noteq> 0) (map snd (current_record w)) then
          (let w1 = w\<lparr>sample_count := sample_count w + 1\<rparr>;
               w2 = w1\<lparr>data_records :=
                         AList.update (sample_count w1) (current_record w1) (data_records w1)\<rparr>
           in w2\<lparr>ppg_updated := False, acc_updated := False\<rparr>)
        else w
      else w)"

text \<open>
  Line 144: the three exception classes the handler catches are reported on stdout and
  the loop over the lines goes on; any other exception leaves \<open>receive_serial_data\<close>.
\<close>

definition except_handler :: "error \<Rightarrow> 'v window \<Rightarrow> error option \<times> 'v window" where
  "except_handler e w =
     (if e \<in> set [UnicodeDecodeError, IndexError, ValueError]
      then (None, w\<lparr>stdout := stdout w @ [Error_parsing_line e]\<rparr>)
      else (Some e, w))"

text \<open>One round of the \<open>while\<close> loop: the \<open>try\<close> block on one raw line.\<close>

definition process_line ::
  "('r \<Rightarrow> string option) \<Rightarrow> (string \<Rightarrow> 'v option) \<Rightarrow> 'r \<Rightarrow> ('v::zero) window
     \<Rightarrow> error option \<times> 'v window" where
  "process_line dec flt data w =
     (case dec data of
        None \<Rightarrow> except_handler UnicodeDecodeError w
      | Some text \<Rightarrow>
         (let line = str_strip text;
              w0 = w\<lparr>stdout := stdout w @ [Raw_line line]\<rparr>;
              vals = str_split CHR '','' line
          in case values_loop flt vals (False, False, w0) of
               (Some e, _, _, w1) \<Rightarrow> except_handler e w1
             | (None, is_ppg_data, is_acc_data, w1) \<Rightarrow>
                 (None, store_record (update_flags is_ppg_data is_acc_data w1))))"

text \<open>The \<open>while canReadLine()\<close> loop over the lines the port has ready.\<close>

fun receive_serial_data ::
  "('r \<Rightarrow> string option) \<Rightarrow> (string \<Rightarrow> 'v option) \<Rightarrow> 'r list \<Rightarrow> ('v::zero) window
     \<Rightarrow> error option \<times> 'v window" where
  "receive_serial_data dec flt [] w = (None, w)"
| "receive_serial_data dec flt (data # rest) w =
     (case process_line dec flt data w of
        (None, w') \<Rightarrow> receive_serial_data dec flt rest w'
      | (Some e, w') \<Rightarrow> (Some e, w'))"

subsection \<open>export\_data (lines 147--186)\<close>

text \<open>
  The rows handed to \<open>csv.writer\<close>, in order. A record without one of the seven keys
  raises KeyError, after the earlier rows were written.
\<close>

fun write_rows :: "'v pydict list \<Rightarrow> 'v cell list list \<Rightarrow> error option \<times> 'v cell list list" where
  "write_rows [] file = (None, file)"
| "write_rows (record # records) file =
     (case (map_of record ''C'', map_of record ''R'', map_of record ''IR'', map_of record ''G'',
            map_of record ''X'', map_of record ''Y'', map_of record ''Z'') of
        (Some c, Some r, Some ir, Some g, Some x, Some y, Some z) \<Rightarrow>
           write_rows records (file @ [[Num c, Num r, Num ir, Num g, Num x, Num y, Num z]])
      | _ \<Rightarrow> (Some KeyError, file))"

text \<open>
  \<open>filename\<close> is what the file dialog returned (empty when cancelled) and \<open>can_open\<close>
  tells whether \<open>open(filename, "w")\<close> succeeds. The result is the file written (its name
  and rows), if any, the message box shown, and the window.
\<close>

definition export_data ::
  "string \<Rightarrow> bool \<Rightarrow> 'v window
     \<Rightarrow> (string \<times> 'v cell list list) option \<times> message_box \<times> 'v window" where
  "export_data filename can_open w =
     (if length (data_records w) > 0 then
        if filename \<noteq> [] then
          if can_open then
            (case write_rows (map snd (data_records w)) [map Name channels] of
               (None, file) \<Rightarrow>
                 (Some (filename, file),
                  Information ''Export Success'' (''Data exported to '' @ filename), w)
             | (Some e, file) \<Rightarrow>
                 (Some (filename, file),
                  Warning ''Export Error'' ''Failed to export data.'',
                  w\<lparr>stdout := stdout w @ [Export_error e]\<rparr>))
          else
            (None, Warning ''Export Error'' ''Failed to export data.'',
             w\<lparr>stdout := stdout w @ [Export_error OSError]\<rparr>)
        else (None, Warning ''Export Error'' ''Invalid filename.'', w)
      else (None, Warning ''Export Error'' ''No data to export.'', w))"

subsection \<open>change\_buffer\_size (lines 188--190)\<close>

text \<open>
  \<open>self.buffer_sizes[index]\<close> is Python list indexing: a negative index counts from the
  end, and an index outside the list raises IndexError before anything is assigned.
\<close>

definition change_buffer_size :: "int \<Rightarrow> ('v::zero) window \<Rightarrow> error option \<times> 'v window" where
  "change_buffer_size i w =
     (let n = int (length (buffer_sizes w));
          j = (if i < 0 then n + i else i)
      in if 0 \<le> j \<and> j < n then
           (let w1 = w\<lparr>buffer_capacity := buffer_sizes w ! nat j\<rparr>
            in (None, w1\<lparr>data_buffers :=
                    map (\<lambda>_. CircularBuffer_init (buffer_capacity w1)) (data_buffers w1)\<rparr>))
         else (Some IndexError, w))"

section \<open>Vocabulary for the properties\<close>

text \<open>
  A buffer as \<open>__init__\<close> and \<open>push\<close> keep it: positive capacity, an array of that
  length, the cursor inside it.
\<close>

definition buffer_ok :: "'v CircularBuffer \<Rightarrow> bool" where
  "buffer_ok b \<longleftrightarrow> 0 < capacity b \<and> length (buffer b) = capacity b \<and> index b < capacity b"

text \<open>
  \<open>filled n xs b\<close>: \<open>b\<close> is what a buffer of capacity \<open>n\<close> looks like after the values
  \<open>xs\<close> were pushed into it.
\<close>

definition filled :: "nat \<Rightarrow> 'v list \<Rightarrow> 'v CircularBuffer \<Rightarrow> bool" where
  "filled n xs b \<longleftrightarrow>
     capacity b = n \<and> length (buffer b) = n \<and> index b = length xs mod n \<and>
     full b = (n \<le> length xs) \<and>
     get_data b = drop (length xs - n) xs"

text \<open>
  The windows the program can be in. \<open>buffers_ok\<close>: every plot buffer is well formed and
  has its plot item. \<open>store_ok\<close>: the keys of \<open>data_records\<close> are \<open>1, \<dots>, sample_count\<close>
  in insertion order, and the current record and every stored record have the seven
  channel keys.
\<close>

definition has_channels :: "'v pydict \<Rightarrow> bool" where
  "has_channels r \<longleftrightarrow> list_all (\<lambda>c. map_of r c \<noteq> None) channels"

definition buffers_ok :: "'v window \<Rightarrow> bool" where
  "buffers_ok w \<longleftrightarrow>
     list_all buffer_ok (data_buffers w) \<and>
     length (plot_data_items w) = length (data_buffers w)"

definition store_ok :: "'v window \<Rightarrow> bool" where
  "store_ok w \<longleftrightarrow>
     0 \<le> sample_count w \<and>
     map fst (data_records w) = [1..sample_count w] \<and>
     list_all has_channels (map snd (data_records w)) \<and>
     has_channels (current_record w)"

definition window_ok :: "'v window \<Rightarrow> bool" where
  "window_ok w \<longleftrightarrow> buffers_ok w \<and> store_ok w"

text \<open>
  \<open>untouched w w'\<close>: the fields that the loop over the fields of one line never assigns.
\<close>

definition untouched :: "'v window \<Rightarrow> 'v window \<Rightarrow> bool" where
  "untouched w w' \<longleftrightarrow>
     data_records w' = data_records w \<and> sample_count w' = sample_count w \<and>
     ppg_updated w' = ppg_updated w \<and> acc_updated w' = acc_updated w \<and>
     stdout w' = stdout w \<and> buffer_sizes w' = buffer_sizes w \<and>
     buffer_capacity w' = buffer_capacity w \<and> sample_index w' = sample_index w"

text \<open>
  The fields of a line: \<open>no_raise\<close> says that no field of the list raises; \<open>parsed_fields\<close> are
  the names and values of those that parse, in order; \<open>assign\<close> stores them into a record
  one after the other; \<open>routed i\<close> are the values that go to plot buffer \<open>i\<close>.
\<close>

definition no_raise :: "(string \<Rightarrow> 'v option) \<Rightarrow> string list \<Rightarrow> bool" where
  "no_raise flt vals =
     list_all (\<lambda>val. case token_of flt val of Raises e \<Rightarrow> False | _ \<Rightarrow> True) vals"

definition parsed_fields :: "(string \<Rightarrow> 'v option) \<Rightarrow> string list \<Rightarrow> (string \<times> 'v) list" where
  "parsed_fields flt vals =
     concat (map (\<lambda>val. case token_of flt val of Field n x \<Rightarrow> [(n, x)] | _ \<Rightarrow> []) vals)"

definition assign :: "(string \<times> 'v) list \<Rightarrow> 'v pydict \<Rightarrow> 'v pydict" where
  "assign fs r = foldl (\<lambda>r f. AList.update (fst f) (snd f) r) r fs"

definition routed :: "nat \<Rightarrow> (string \<times> 'v) list \<Rightarrow> 'v list" where
  "routed i fs = map snd (filter (\<lambda>f. map_of sensor_map (fst f) = Some i) fs)"

text \<open>
  The row that \<open>export_data\<close> writes for a record that has the seven channel keys.
\<close>

definition csv_row :: "'v pydict \<Rightarrow> 'v cell list" where
  "csv_row r = map (\<lambda>c. Num (the (map_of r c))) channels"

text \<open>
  \<open>stays_zero dec flt c ds w\<close>: while the lines \<open>ds\<close> are processed from \<open>w\<close>, the value of
  \<open>c\<close> in the current record is 0 at the end of every line.
\<close>

fun stays_zero ::
  "('r \<Rightarrow> string option) \<Rightarrow> (string \<Rightarrow> 'v option) \<Rightarrow> string \<Rightarrow> 'r list \<Rightarrow> ('v::zero) window
     \<Rightarrow> bool" where
  "stays_zero dec flt c [] w = True"
| "stays_zero dec flt c (d # ds) w =
     (case process_line dec flt d w of
        (e, w1) \<Rightarrow>
          map_of (current_record w1) c = Some 0 \<and>
          (case e of None \<Rightarrow> stays_zero dec flt c ds w1 | Some _ \<Rightarrow> True))"

text \<open>
  For the examples: Python's \<open>float\<close> on the strings that, once stripped, are ASCII digits
  only, with the integer they spell as a real number. It agrees with \<open>float\<close> on those
  strings and on the strings without any digit that spell neither an infinity nor a NaN,
  which \<open>float\<close> rejects; the examples use no other string. \<open>Some\<close> stands for the
  decoding of an ASCII line.
\<close>

definition float_digits :: "string \<Rightarrow> real option" where
  "float_digits s =
     (let t = str_strip s in
      if t \<noteq> [] \<and> list_all (\<lambda>c. 48 \<le> (of_char c :: nat) \<and> (of_char c :: nat) \<le> 57) t
      then Some (of_nat (foldl (\<lambda>a c. 10 * a + (of_char c - 48)) (0::nat) t))
      else None)"

section \<open>The circular buffer keeps the last values pushed\<close>

lemma push_all_append:
  "push_all (xs @ ys) b =
     (case push_all xs b of (None, b') \<Rightarrow> push_all ys b' | (Some e, b') \<Rightarrow> (Some e, b'))"
  by (induction xs arbitrary: b) (auto split: prod.splits option.splits)

text \<open>
  One push, seen through the wrapped read: the oldest sample leaves at the front and
  the new one arrives at the back.
\<close>

lemma rotate_step:
  assumes "i < length bs"
  shows "drop (Suc i mod length bs) (bs[i := x]) @ take (Suc i mod length bs) (bs[i := x])
         = tl (drop i bs @ take i bs) @ [x]"
proof (cases "Suc i = length bs")
  case True
  then have "bs[i := x] = take i bs @ [x]"
    using assms by (metis drop_all dual_order.refl upd_conv_take_nth_drop)
  moreover have "drop i bs = [bs ! i]" using True assms
    by (metis Cons_nth_drop_Suc drop_all order_refl)
  ultimately show ?thesis using True by simp
next
  case False
  then have lt: "Suc i < length bs" using assms by simp
  have "drop i bs = bs ! i # drop (Suc i) bs" using assms by (simp add: Cons_nth_drop_Suc)
  then show ?thesis using lt assms by (simp add: take_Suc_conv_app_nth)
qed

lemma filled_init: "0 < n \<Longrightarrow> filled n [] (CircularBuffer_init n)"
  by (simp add: filled_def CircularBuffer_init_def get_data_def)

lemma filled_push:
  assumes "0 < n" "filled n xs b"
  shows "\<exists>b'. push x b = (None, b') \<and> filled n (xs @ [x]) b'"
proof -
  let ?L = "length xs"
  let ?i = "index b"
  let ?bs = "buffer b"
  from assms have cap: "capacity b = n" and len: "length ?bs = n" and idx: "?i = ?L mod n"
    and fl: "full b = (n \<le> ?L)" and gd: "get_data b = drop (?L - n) xs"
    by (simp_all add: filled_def)
  have ilt: "?i < length ?bs" using idx len assms(1) by simp
  define b' where "b' = (if Suc ?i mod n = 0
      then b\<lparr>buffer := ?bs[?i := x], index := Suc ?i mod n, full := True\<rparr>
      else b\<lparr>buffer := ?bs[?i := x], index := Suc ?i mod n\<rparr>)"
  have p: "push x b = (None, b')"
    using ilt assms(1) cap by (simp add: push_def b'_def Let_def)
  have idx': "index b' = length (xs @ [x]) mod n"
    using idx by (simp add: b'_def mod_Suc_eq)
  have basic: "capacity b' = n" "length (buffer b') = n" "buffer b' = ?bs[?i := x]"
    "index b' = Suc ?i mod n"
    using cap len by (simp_all add: b'_def)
  show ?thesis
  proof (cases "n \<le> ?L")
    case True
    then have fb: "full b" using fl by simp
    then have fb': "full b'" by (simp add: b'_def)
    have "get_data b' = tl (get_data b) @ [x]"
      using rotate_step[OF ilt, of x] fb fb' basic len by (simp add: get_data_def)
    also have "\<dots> = drop (length (xs @ [x]) - n) (xs @ [x])"
      using True gd assms(1) by (simp add: Suc_diff_le drop_Suc tl_drop)
    finally have "get_data b' = drop (length (xs @ [x]) - n) (xs @ [x])" .
    then have "filled n (xs @ [x]) b'"
      using basic idx' fb' True by (simp add: filled_def)
    then show ?thesis using p by blast
  next
    case False
    then have lt: "?L < n" by simp
    then have i: "?i = ?L" using idx by simp
    have nf: "\<not> full b" using fl False by simp
    have tk: "take ?L ?bs = xs" using gd nf lt i by (simp add: get_data_def)
    show ?thesis
    proof (cases "Suc ?L = n")
      case True
      then have z: "Suc ?i mod n = 0" using i by simp
      have "?bs[?L := x] = take ?L ?bs @ [x]"
        using True len by (simp add: upd_conv_take_nth_drop)
      then have "get_data b' = xs @ [x]"
        using z tk i by (simp add: get_data_def b'_def)
      then have "filled n (xs @ [x]) b'"
        using basic idx' z True by (simp add: filled_def b'_def)
      then show ?thesis using p by blast
    next
      case F2: False
      then have sl: "Suc ?L < n" using lt by simp
      then have nz: "Suc ?i mod n = Suc ?L" using i by simp
      have "take (Suc ?L) (?bs[?L := x]) = take ?L ?bs @ [x]"
        using sl len by (simp add: take_Suc_conv_app_nth)
      then have "get_data b' = xs @ [x]"
        using nz tk i nf by (simp add: get_data_def b'_def)
      then have "filled n (xs @ [x]) b'"
        using basic idx' nz sl nf by (simp add: filled_def b'_def)
      then show ?thesis using p by blast
    qed
  qed
qed

lemma push_all_filled:
  "0 < n \<Longrightarrow> \<exists>b. push_all xs (CircularBuffer_init n) = (None, b) \<and> filled n xs b"
proof (induction xs rule: rev_induct)
  case Nil
  then show ?case by (simp add: filled_init)
next
  case (snoc x xs)
  then obtain b where b: "push_all xs (CircularBuffer_init n) = (None, b)" "filled n xs b"
    by blast
  from filled_push[OF snoc.prems b(2), of x] obtain b' where
    "push x b = (None, b')" "filled n (xs @ [x]) b'" by blast
  then show ?case using b(1) by (simp add: push_all_append)
qed

text \<open>
  C1. For every positive capacity \<open>n\<close> and every sequence \<open>xs\<close> of pushed values, no
  push raises and \<open>get_data\<close> returns the last \<open>min (length xs) n\<close> pushed values, oldest
  first: all of \<open>xs\<close> when it has at most \<open>n\<close> values, its last \<open>n\<close> values otherwise.
\<close>

theorem get_data_last_pushed:
  assumes "0 < n"
  shows "\<exists>b. push_all xs (CircularBuffer_init n) = (None, b) \<and>
             get_data b = drop (length xs - n) xs \<and>
             length (get_data b) = min (length xs) n \<and>
             (length xs \<le> n \<longrightarrow> get_data b = xs)"
proof -
  from push_all_filled[OF assms, of xs] obtain b where
    b: "push_all xs (CircularBuffer_init n) = (None, b)" "filled n xs b" by blast
  then have "get_data b = drop (length xs - n) xs" by (simp add: filled_def)
  then show ?thesis using b(1) by auto
qed

theorem get_data_last_pushed_witness:
  "(0::nat) < 3 \<and>
   (\<exists>b. push_all [1, 2, 3, 4, 5 :: int] (CircularBuffer_init 3) = (None, b) \<and>
      get_data b = [3, 4, 5] \<and> length (get_data b) = 3)"
proof -
  have h: "(0::nat) < 3" by simp
  from get_data_last_pushed[OF h, of "[1, 2, 3, 4, 5 :: int]"] show ?thesis
    by (auto simp del: push_all.simps)
qed

section \<open>The loop over the fields of a line\<close>

lemma push_ok:
  assumes "buffer_ok b"
  shows "\<exists>b'. push x b = (None, b') \<and> buffer_ok b'"
  using assms by (auto simp: push_def buffer_ok_def Let_def)

lemma has_channels_update: "has_channels r \<Longrightarrow> has_channels (AList.update n x r)"
  by (simp add: has_channels_def list_all_iff update_conv')

lemma ppg_not_acc: "n \<in> set ppg_names \<Longrightarrow> n \<notin> set acc_names"
  by (auto simp: ppg_names_def acc_names_def)

lemma list_all_update: "list_all P xs \<Longrightarrow> P x \<Longrightarrow> list_all P (xs[i := x])"
  by (auto simp: list_all_iff dest: set_update_subset_insert[THEN subsetD])

lemma apply_field_ok:
  assumes "window_ok w"
  shows "\<exists>w'. apply_field n x (p, a, w) =
            (None, p \<or> n \<in> set ppg_names, a \<or> n \<in> set acc_names, w') \<and>
          window_ok w' \<and> untouched w w' \<and>
          current_record w' = AList.update n x (current_record w) \<and>
          length (data_buffers w') = length (data_buffers w) \<and>
          (\<forall>i < length (data_buffers w). data_buffers w' ! i =
             (if map_of sensor_map n = Some i then snd (push x (data_buffers w ! i))
              else data_buffers w ! i))"
proof -
  let ?w1 = "w\<lparr>current_record := AList.update n x (current_record w)\<rparr>"
  have ok1: "window_ok ?w1" "untouched w ?w1"
    using assms
    by (simp_all add: window_ok_def buffers_ok_def store_ok_def untouched_def has_channels_update)
  have flags: "(if n \<in> set ppg_names then True else p) = (p \<or> n \<in> set ppg_names)"
    "(if n \<in> set ppg_names then a else if n \<in> set acc_names then True else a)
       = (a \<or> n \<in> set acc_names)"
    using ppg_not_acc[of n] by auto
  show ?thesis
  proof (cases "map_of sensor_map n")
    case None
    then show ?thesis using ok1 flags by (simp add: apply_field_def Let_def)
  next
    case (Some i)
    show ?thesis
    proof (cases "i < length (data_buffers w)")
      case False
      then show ?thesis using ok1 flags Some by (simp add: apply_field_def Let_def)
    next
      case True
      then have bok: "buffer_ok (data_buffers w ! i)"
        using assms by (simp add: window_ok_def buffers_ok_def list_all_length)
      from push_ok[OF bok, of x] obtain b' where
        b': "push x (data_buffers w ! i) = (None, b')" "buffer_ok b'" by blast
      have pl: "i < length (plot_data_items w)"
        using True assms by (simp add: window_ok_def buffers_ok_def)
      let ?w' = "?w1\<lparr>data_buffers := (data_buffers w)[i := b'],
                     plot_data_items := (plot_data_items w)[i := get_data b']\<rparr>"
      have run: "apply_field n x (p, a, w) =
            (None, p \<or> n \<in> set ppg_names, a \<or> n \<in> set acc_names, ?w')"
        using Some True b'(1) pl flags by (simp add: apply_field_def Let_def)
      have ok': "window_ok ?w'"
        using assms b'(2)
        by (simp add: window_ok_def buffers_ok_def store_ok_def has_channels_update list_all_update)
      have "untouched w ?w'" by (simp add: untouched_def)
      moreover have "\<forall>j < length (data_buffers w). data_buffers ?w' ! j =
             (if map_of sensor_map n = Some j then snd (push x (data_buffers w ! j))
              else data_buffers w ! j)"
        using Some b'(1) True by (auto simp: nth_list_update)
      ultimately show ?thesis using run ok' by simp
    qed
  qed
qed


lemma untouched_refl: "untouched w w"
  by (simp add: untouched_def)

lemma untouched_trans: "untouched w w1 \<Longrightarrow> untouched w1 w2 \<Longrightarrow> untouched w w2"
  by (simp add: untouched_def)

lemma fields_Nil: "parsed_fields flt [] = []"
  by (simp add: parsed_fields_def)

lemma fields_Cons:
  "parsed_fields flt (val # vals) =
     (case token_of flt val of Field n x \<Rightarrow> [(n, x)] | _ \<Rightarrow> []) @ parsed_fields flt vals"
  by (simp add: parsed_fields_def)

lemma no_raise_Cons:
  "no_raise flt (val # vals) \<longleftrightarrow> (\<forall>e. token_of flt val \<noteq> Raises e) \<and> no_raise flt vals"
  by (auto simp: no_raise_def split: token.splits)

lemma assign_Cons: "assign (f # fs) r = assign fs (AList.update (fst f) (snd f) r)"
  by (simp add: assign_def)

lemma routed_Cons:
  "routed i (f # fs) =
     (if map_of sensor_map (fst f) = Some i then snd f # routed i fs else routed i fs)"
  by (simp add: routed_def)

lemma push_all_Cons_ok:
  "buffer_ok b \<Longrightarrow> snd (push_all (x # xs) b) = snd (push_all xs (snd (push x b)))"
  using push_ok[of b x] by auto

lemma values_loop_ok:
  assumes "window_ok w" "no_raise flt vals"
  shows "\<exists>w'. values_loop flt vals (p, a, w) =
            (None, p \<or> list_ex (\<lambda>f. fst f \<in> set ppg_names) (parsed_fields flt vals),
                   a \<or> list_ex (\<lambda>f. fst f \<in> set acc_names) (parsed_fields flt vals), w') \<and>
          window_ok w' \<and> untouched w w' \<and>
          current_record w' = assign (parsed_fields flt vals) (current_record w) \<and>
          length (data_buffers w') = length (data_buffers w) \<and>
          (\<forall>i < length (data_buffers w). data_buffers w' ! i =
             snd (push_all (routed i (parsed_fields flt vals)) (data_buffers w ! i)))"
  using assms
proof (induction vals arbitrary: p a w)
  case Nil
  then show ?case by (simp add: fields_Nil assign_def routed_def untouched_refl)
next
  case (Cons val vals)
  from Cons.prems(2) have nr: "no_raise flt vals" and ne: "\<And>e. token_of flt val \<noteq> Raises e"
    by (simp_all add: no_raise_Cons)
  show ?case
  proof (cases "token_of flt val")
    case No_colon
    then have "values_loop flt (val # vals) (p, a, w) = values_loop flt vals (p, a, w)"
      by (simp add: process_value_def)
    moreover have "parsed_fields flt (val # vals) = parsed_fields flt vals"
      using No_colon by (simp add: fields_Cons)
    ultimately show ?thesis using Cons.IH[OF Cons.prems(1) nr, of p a] by simp
  next
    case (Raises e)
    then show ?thesis using ne by simp
  next
    case (Field n x)
    from apply_field_ok[OF Cons.prems(1), of n x p a] obtain w1 where
      w1: "apply_field n x (p, a, w) =
             (None, p \<or> n \<in> set ppg_names, a \<or> n \<in> set acc_names, w1)"
        "window_ok w1" "untouched w w1"
        "current_record w1 = AList.update n x (current_record w)"
        "length (data_buffers w1) = length (data_buffers w)"
        "\<forall>i < length (data_buffers w). data_buffers w1 ! i =
             (if map_of sensor_map n = Some i then snd (push x (data_buffers w ! i))
              else data_buffers w ! i)"
      by blast
    have step: "values_loop flt (val # vals) (p, a, w) =
        values_loop flt vals (p \<or> n \<in> set ppg_names, a \<or> n \<in> set acc_names, w1)"
      using Field w1(1) by (simp add: process_value_def)
    have fs: "parsed_fields flt (val # vals) = (n, x) # parsed_fields flt vals"
      using Field by (simp add: fields_Cons)
    from Cons.IH[OF w1(2) nr, of "p \<or> n \<in> set ppg_names" "a \<or> n \<in> set acc_names"]
    obtain w' where
      w': "values_loop flt vals (p \<or> n \<in> set ppg_names, a \<or> n \<in> set acc_names, w1) =
            (None, (p \<or> n \<in> set ppg_names) \<or> list_ex (\<lambda>f. fst f \<in> set ppg_names) (parsed_fields flt vals),
                   (a \<or> n \<in> set acc_names) \<or> list_ex (\<lambda>f. fst f \<in> set acc_names) (parsed_fields flt vals), w')"
        "window_ok w'" "untouched w1 w'"
        "current_record w' = assign (parsed_fields flt vals) (current_record w1)"
        "length (data_buffers w') = length (data_buffers w1)"
        "\<forall>i < length (data_buffers w1). data_buffers w' ! i =
             snd (push_all (routed i (parsed_fields flt vals)) (data_buffers w1 ! i))"
      by blast
    have bufs: "\<forall>i < length (data_buffers w). data_buffers w' ! i =
             snd (push_all (routed i (parsed_fields flt (val # vals))) (data_buffers w ! i))"
    proof (intro allI impI)
      fix i assume i: "i < length (data_buffers w)"
      then have bok: "buffer_ok (data_buffers w ! i)"
        using Cons.prems(1) by (simp add: window_ok_def buffers_ok_def list_all_length)
      show "data_buffers w' ! i =
             snd (push_all (routed i (parsed_fields flt (val # vals))) (data_buffers w ! i))"
        using i w1(5,6) w'(6) push_all_Cons_ok[OF bok]
        by (simp add: fs routed_Cons del: push_all.simps)
    qed
    have "values_loop flt (val # vals) (p, a, w) =
            (None, p \<or> list_ex (\<lambda>f. fst f \<in> set ppg_names) (parsed_fields flt (val # vals)),
                   a \<or> list_ex (\<lambda>f. fst f \<in> set acc_names) (parsed_fields flt (val # vals)), w')"
      using step w'(1) by (simp add: fs)
    moreover have "current_record w' = assign (parsed_fields flt (val # vals)) (current_record w)"
      using w'(4) w1(4) by (simp add: fs assign_Cons)
    ultimately show ?thesis
      using w'(2) untouched_trans[OF w1(3) w'(3)] w'(5) w1(5) bufs
      by (intro exI[of _ w']) simp
  qed
qed

lemma values_loop_append:
  "values_loop flt (xs @ ys) st =
     (case values_loop flt xs st of
        (None, st') \<Rightarrow> values_loop flt ys st'
      | (Some e, st') \<Rightarrow> (Some e, st'))"
  by (induction xs arbitrary: st) (auto split: prod.splits option.splits)

lemma values_loop_raise:
  assumes "values_loop flt pre st = (None, st')" "token_of flt bad = Raises e"
  shows "values_loop flt (pre @ bad # post) st = (Some e, st')"
  using assms by (simp add: values_loop_append process_value_def)

subsection \<open>A field with a colon can only raise ValueError\<close>

lemma str_split_not_Nil: "str_split c s \<noteq> []"
  by (induction s) (auto split: list.splits)

lemma str_split_two: "c \<in> set s \<Longrightarrow> \<exists>a b rest. str_split c s = a # b # rest"
proof (induction s)
  case Nil
  then show ?case by simp
next
  case (Cons x xs)
  show ?case
  proof (cases "x = c")
    case True
    obtain b rest where "str_split c xs = b # rest"
      using str_split_not_Nil[of c xs] by (cases "str_split c xs") auto
    then show ?thesis using True by simp
  next
    case False
    then have "c \<in> set xs" using Cons.prems by simp
    from Cons.IH[OF this] obtain a b rest where "str_split c xs = a # b # rest" by blast
    then show ?thesis using False by simp
  qed
qed

lemma token_of_raises: "token_of flt val = Raises e \<Longrightarrow> e = ValueError"
proof -
  assume a: "token_of flt val = Raises e"
  then have c: "CHR '':'' \<in> set val" by (auto simp: token_of_def split: if_splits)
  from str_split_two[OF c] obtain n v rest where "str_split CHR '':'' val = n # v # rest"
    by blast
  then show ?thesis using a c by (auto simp: token_of_def Let_def split: option.splits)
qed

subsection \<open>Flags and the stored record\<close>

lemma alist_update_fresh: "k \<notin> fst ` set al \<Longrightarrow> AList.update k v al = al @ [(k, v)]"
  by (induction al) auto

lemma window_ok_stdout [simp]: "window_ok (w\<lparr>stdout := out\<rparr>) = window_ok w"
  by (simp add: window_ok_def buffers_ok_def store_ok_def)

lemma update_flags_simps:
  "ppg_updated (update_flags p a w) = (ppg_updated w \<or> p)"
  "acc_updated (update_flags p a w) = (acc_updated w \<or> a)"
  "data_records (update_flags p a w) = data_records w"
  "sample_count (update_flags p a w) = sample_count w"
  "current_record (update_flags p a w) = current_record w"
  "data_buffers (update_flags p a w) = data_buffers w"
  "plot_data_items (update_flags p a w) = plot_data_items w"
  "stdout (update_flags p a w) = stdout w"
  "buffer_sizes (update_flags p a w) = buffer_sizes w"
  "buffer_capacity (update_flags p a w) = buffer_capacity w"
  by (auto simp: update_flags_def Let_def)

lemma window_ok_update_flags: "window_ok (update_flags p a w) = window_ok w"
  by (simp add: window_ok_def buffers_ok_def store_ok_def update_flags_simps)

lemma store_record_simps:
  "current_record (store_record w) = current_record w"
  "data_buffers (store_record w) = data_buffers w"
  "plot_data_items (store_record w) = plot_data_items w"
  "stdout (store_record w) = stdout w"
  "buffer_sizes (store_record w) = buffer_sizes w"
  "buffer_capacity (store_record w) = buffer_capacity w"
  by (simp_all add: store_record_def Let_def)

lemma store_record_skip:
  "\<not> (ppg_updated w \<and> acc_updated w \<and> list_all (\<lambda>v. v \<noteq> 0) (map snd (current_record w)))
   \<Longrightarrow> store_record w = w"
  by (auto simp: store_record_def)

lemma store_record_emit:
  assumes "ppg_updated w" "acc_updated w"
    "list_all (\<lambda>v. v \<noteq> 0) (map snd (current_record w))" "store_ok w"
  shows "store_record w =
     w\<lparr>sample_count := sample_count w + 1,
       data_records := data_records w @ [(sample_count w + 1, current_record w)],
       ppg_updated := False, acc_updated := False\<rparr>"
proof -
  have "sample_count w + 1 \<notin> fst ` set (data_records w)"
  proof -
    have "fst ` set (data_records w) = set [1..sample_count w]"
      using assms(4) by (metis list.set_map store_ok_def)
    then show ?thesis by simp
  qed
  then show ?thesis using assms(1-3)
    by (simp add: store_record_def Let_def alist_update_fresh)
qed

lemma store_ok_store_record:
  assumes "store_ok w"
  shows "store_ok (store_record w)"
proof (cases "ppg_updated w \<and> acc_updated w \<and> list_all (\<lambda>v. v \<noteq> 0) (map snd (current_record w))")
  case True
  have "[1..sample_count w + 1] = [1..sample_count w] @ [sample_count w + 1]"
    using assms by (simp add: store_ok_def upto_rec2)
  then show ?thesis
    using store_record_emit[of w] True assms by (simp add: store_ok_def)
next
  case False
  then show ?thesis using assms by (simp add: store_record_skip)
qed

lemma window_ok_store_record: "window_ok w \<Longrightarrow> window_ok (store_record w)"
  by (simp add: window_ok_def store_ok_store_record buffers_ok_def store_record_simps)

subsection \<open>One line\<close>

lemma process_line_decode_error:
  "dec data = None \<Longrightarrow>
   process_line dec flt data w =
     (None, w\<lparr>stdout := stdout w @ [Error_parsing_line UnicodeDecodeError]\<rparr>)"
  by (simp add: process_line_def except_handler_def)

lemma process_line_raise:
  assumes "dec data = Some text"
    "str_split CHR '','' (str_strip text) = pre @ bad # post"
    "token_of flt bad = Raises e"
    "values_loop flt pre (False, False, w\<lparr>stdout := stdout w @ [Raw_line (str_strip text)]\<rparr>)
       = (None, p, a, w1)"
  shows "process_line dec flt data w =
           (None, w1\<lparr>stdout := stdout w1 @ [Error_parsing_line e]\<rparr>)"
proof -
  have "e = ValueError" using assms(3) by (rule token_of_raises)
  moreover have "values_loop flt (pre @ bad # post)
      (False, False, w\<lparr>stdout := stdout w @ [Raw_line (str_strip text)]\<rparr>) = (Some e, p, a, w1)"
    using values_loop_raise[OF assms(4) assms(3)] .
  ultimately show ?thesis
    using assms(1,2) by (simp add: process_line_def Let_def except_handler_def)
qed

lemma no_raise_iff: "no_raise flt vals \<longleftrightarrow> (\<forall>v \<in> set vals. \<forall>e. token_of flt v \<noteq> Raises e)"
proof -
  have "\<And>t::'a token. (case t of Raises e \<Rightarrow> False | _ \<Rightarrow> True) \<longleftrightarrow> (\<forall>e. t \<noteq> Raises e)"
    by (case_tac t) auto
  then show ?thesis by (simp add: no_raise_def list_all_iff)
qed

lemma first_raise:
  assumes "\<not> no_raise flt vals"
  shows "\<exists>pre bad post e. vals = pre @ bad # post \<and> no_raise flt pre \<and> token_of flt bad = Raises e"
proof -
  from assms have "\<exists>v \<in> set vals. \<exists>e. token_of flt v = Raises e"
    by (auto simp: no_raise_iff)
  from split_list_first_prop[OF this] obtain pre bad post where
    d: "vals = pre @ bad # post" "\<exists>e. token_of flt bad = Raises e"
       "\<forall>y \<in> set pre. \<not> (\<exists>e. token_of flt y = Raises e)" by blast
  from d(3) have "no_raise flt pre"
    by (auto simp: no_raise_iff)
  then show ?thesis using d(1,2) by blast
qed

subsection \<open>What a line leaves alone, in any window\<close>

lemma apply_field_frame:
  assumes "apply_field n x (p, a, w) = (e, p', a', w')"
  shows "untouched w w' \<and> current_record w' = AList.update n x (current_record w)"
proof (cases "map_of sensor_map n")
  case None
  then have "w' = w\<lparr>current_record := AList.update n x (current_record w)\<rparr>"
    using assms by (simp add: apply_field_def Let_def)
  then show ?thesis by (simp add: untouched_def)
next
  case (Some i)
  show ?thesis
  proof (cases "i < length (data_buffers w)")
    case False
    then have "w' = w\<lparr>current_record := AList.update n x (current_record w)\<rparr>"
      using assms Some by (simp add: apply_field_def Let_def)
    then show ?thesis by (simp add: untouched_def)
  next
    case True
    obtain e1 b where pb: "push x (data_buffers w ! i) = (e1, b)" by (cases "push x (data_buffers w ! i)")
    show ?thesis
    proof (cases e1)
      case (Some e2)
      then have "w' = w\<lparr>current_record := AList.update n x (current_record w),
                        data_buffers := (data_buffers w)[i := b]\<rparr>"
        using assms \<open>map_of sensor_map n = Some i\<close> True pb by (simp add: apply_field_def Let_def)
      then show ?thesis by (simp add: untouched_def)
    next
      case None
      show ?thesis
      proof (cases "i < length (plot_data_items w)")
        case T2: True
        then have "w' = w\<lparr>current_record := AList.update n x (current_record w),
                        data_buffers := (data_buffers w)[i := b],
                        plot_data_items := (plot_data_items w)[i := get_data b]\<rparr>"
          using assms \<open>map_of sensor_map n = Some i\<close> True pb None
          by (simp add: apply_field_def Let_def)
        then show ?thesis by (simp add: untouched_def)
      next
        case F2: False
        then have "w' = w\<lparr>current_record := AList.update n x (current_record w),
                        data_buffers := (data_buffers w)[i := b]\<rparr>"
          using assms \<open>map_of sensor_map n = Some i\<close> True pb None
          by (simp add: apply_field_def Let_def)
        then show ?thesis by (simp add: untouched_def)
      qed
    qed
  qed
qed

lemma values_loop_frame:
  assumes "values_loop flt vals (p, a, w) = (e, p', a', w')"
  shows "untouched w w' \<and> fst ` set (current_record w) \<subseteq> fst ` set (current_record w')"
  using assms
proof (induction vals arbitrary: p a w)
  case Nil
  then show ?case by (simp add: untouched_refl)
next
  case (Cons val vals)
  show ?case
  proof (cases "token_of flt val")
    case No_colon
    then have "values_loop flt vals (p, a, w) = (e, p', a', w')"
      using Cons.prems by (simp add: process_value_def)
    then show ?thesis by (rule Cons.IH)
  next
    case (Raises e')
    then have "w' = w" using Cons.prems by (simp add: process_value_def)
    then show ?thesis by (simp add: untouched_refl)
  next
    case (Field n x)
    obtain e1 p1 a1 w1 where af: "apply_field n x (p, a, w) = (e1, p1, a1, w1)"
      by (metis prod_cases4)
    from apply_field_frame[OF af] have f1: "untouched w w1"
      "fst ` set (current_record w) \<subseteq> fst ` set (current_record w1)"
      by (auto simp: dom_update)
    show ?thesis
    proof (cases e1)
      case None
      then have "values_loop flt vals (p1, a1, w1) = (e, p', a', w')"
        using Cons.prems Field af by (simp add: process_value_def)
      from Cons.IH[OF this] have ih: "untouched w1 w'"
        "fst ` set (current_record w1) \<subseteq> fst ` set (current_record w')" by simp_all
      have u: "untouched w w'" using untouched_trans[OF f1(1) ih(1)] .
      have k: "fst ` set (current_record w) \<subseteq> fst ` set (current_record w')"
        using f1(2) ih(2) by (rule subset_trans)
      show ?thesis using u k by simp
    next
      case (Some e2)
      then have "w' = w1" using Cons.prems Field af by (simp add: process_value_def)
      then show ?thesis using f1 by simp
    qed
  qed
qed

lemma except_handler_frame:
  "except_handler e w = (e', w') \<Longrightarrow>
     data_records w' = data_records w \<and> sample_count w' = sample_count w \<and>
     ppg_updated w' = ppg_updated w \<and> acc_updated w' = acc_updated w \<and>
     current_record w' = current_record w"
  by (cases "e \<in> set [UnicodeDecodeError, IndexError, ValueError]")
     (auto simp: except_handler_def)

text \<open>What one line can do to the store, whatever the window.\<close>

lemma process_line_frame:
  assumes "process_line dec flt data w = (e, w')"
  shows "fst ` set (current_record w) \<subseteq> fst ` set (current_record w') \<and>
         (\<not> list_all (\<lambda>v. v \<noteq> 0) (map snd (current_record w')) \<longrightarrow>
            data_records w' = data_records w \<and> sample_count w' = sample_count w \<and>
            (ppg_updated w \<longrightarrow> ppg_updated w') \<and> (acc_updated w \<longrightarrow> acc_updated w'))"
proof (cases "dec data")
  case None
  then show ?thesis using assms by (auto simp: process_line_decode_error)
next
  case (Some tx)
  let ?w0 = "w\<lparr>stdout := stdout w @ [Raw_line (str_strip tx)]\<rparr>"
  obtain e1 p1 a1 w1 where vl:
    "values_loop flt (str_split CHR '','' (str_strip tx)) (False, False, ?w0) = (e1, p1, a1, w1)"
    by (metis prod_cases4)
  from values_loop_frame[OF vl] have f: "untouched ?w0 w1"
    "fst ` set (current_record w) \<subseteq> fst ` set (current_record w1)" by simp_all
  show ?thesis
  proof (cases e1)
    case (Some e2)
    then have "except_handler e2 w1 = (e, w')"
      using assms \<open>dec data = Some tx\<close> vl by (simp add: process_line_def Let_def)
    from except_handler_frame[OF this] show ?thesis using f by (simp add: untouched_def)
  next
    case None
    then have w': "w' = store_record (update_flags p1 a1 w1)"
      using assms \<open>dec data = Some tx\<close> vl by (simp add: process_line_def Let_def)
    have cr: "current_record w' = current_record w1"
      by (simp add: w' store_record_simps update_flags_simps)
    have 1: "fst ` set (current_record w) \<subseteq> fst ` set (current_record w')"
      using f(2) cr by simp
    have 2: "\<not> list_all (\<lambda>v. v \<noteq> 0) (map snd (current_record w')) \<longrightarrow>
            data_records w' = data_records w \<and> sample_count w' = sample_count w \<and>
            (ppg_updated w \<longrightarrow> ppg_updated w') \<and> (acc_updated w \<longrightarrow> acc_updated w')"
    proof
      assume z: "\<not> list_all (\<lambda>v. v \<noteq> 0) (map snd (current_record w'))"
      then have "store_record (update_flags p1 a1 w1) = update_flags p1 a1 w1"
        using cr by (intro store_record_skip) (simp add: update_flags_simps)
      then show "data_records w' = data_records w \<and> sample_count w' = sample_count w \<and>
            (ppg_updated w \<longrightarrow> ppg_updated w') \<and> (acc_updated w \<longrightarrow> acc_updated w')"
        using f(1) w' by (simp add: update_flags_simps untouched_def)
    qed
    show ?thesis using 1 2 by blast
  qed
qed

subsection \<open>One line in a well-formed window\<close>

lemma values_loop_no_fields:
  "no_raise flt vals \<Longrightarrow> parsed_fields flt vals = [] \<Longrightarrow> values_loop flt vals st = (None, st)"
proof (induction vals)
  case Nil
  then show ?case by simp
next
  case (Cons val vals)
  from Cons.prems(1) have nr: "no_raise flt vals" and ne: "\<And>e. token_of flt val \<noteq> Raises e"
    by (simp_all add: no_raise_Cons)
  from Cons.prems(2) have nf: "parsed_fields flt vals = []"
    and t: "token_of flt val = No_colon"
    using ne by (cases "token_of flt val"; simp add: fields_Cons)+
  show ?case using Cons.IH[OF nr nf] t by (simp add: process_value_def)
qed

text \<open>A line without a raising field, in a well-formed window.\<close>

lemma process_line_fields:
  assumes "window_ok w" "dec data = Some tx"
    "no_raise flt (str_split CHR '','' (str_strip tx))"
    "fs = parsed_fields flt (str_split CHR '','' (str_strip tx))"
  shows "\<exists>w1. window_ok w1 \<and>
          untouched (w\<lparr>stdout := stdout w @ [Raw_line (str_strip tx)]\<rparr>) w1 \<and>
          current_record w1 = assign fs (current_record w) \<and>
          length (data_buffers w1) = length (data_buffers w) \<and>
          (\<forall>i < length (data_buffers w). data_buffers w1 ! i =
             snd (push_all (routed i fs) (data_buffers w ! i))) \<and>
          process_line dec flt data w =
            (None, store_record (update_flags
               (list_ex (\<lambda>f. fst f \<in> set ppg_names) fs)
               (list_ex (\<lambda>f. fst f \<in> set acc_names) fs) w1))"
proof -
  let ?w0 = "w\<lparr>stdout := stdout w @ [Raw_line (str_strip tx)]\<rparr>"
  have ok0: "window_ok ?w0" using assms(1) by simp
  from values_loop_ok[OF ok0 assms(3), of False False] obtain w1 where
    w1: "values_loop flt (str_split CHR '','' (str_strip tx)) (False, False, ?w0) =
            (None, False \<or> list_ex (\<lambda>f. fst f \<in> set ppg_names) fs,
                   False \<or> list_ex (\<lambda>f. fst f \<in> set acc_names) fs, w1)"
      "window_ok w1" "untouched ?w0 w1"
      "current_record w1 = assign fs (current_record ?w0)"
      "length (data_buffers w1) = length (data_buffers ?w0)"
      "\<forall>i < length (data_buffers ?w0). data_buffers w1 ! i =
             snd (push_all (routed i fs) (data_buffers ?w0 ! i))"
    unfolding assms(4) by blast
  have "process_line dec flt data w =
            (None, store_record (update_flags
               (list_ex (\<lambda>f. fst f \<in> set ppg_names) fs)
               (list_ex (\<lambda>f. fst f \<in> set acc_names) fs) w1))"
    using w1(1) assms(2) by (simp add: process_line_def Let_def)
  then show ?thesis using w1(2-6) by (intro exI[of _ w1]) simp
qed

text \<open>A line whose first raising field is \<open>bad\<close>, in a well-formed window.\<close>

lemma process_line_raise_fields:
  assumes "window_ok w" "dec data = Some tx"
    "str_split CHR '','' (str_strip tx) = pre @ bad # post"
    "no_raise flt pre" "token_of flt bad = Raises e"
    "fs = parsed_fields flt pre"
  shows "\<exists>w1. window_ok w1 \<and>
          untouched (w\<lparr>stdout := stdout w @ [Raw_line (str_strip tx)]\<rparr>) w1 \<and>
          current_record w1 = assign fs (current_record w) \<and>
          length (data_buffers w1) = length (data_buffers w) \<and>
          (\<forall>i < length (data_buffers w). data_buffers w1 ! i =
             snd (push_all (routed i fs) (data_buffers w ! i))) \<and>
          (fs = [] \<longrightarrow> w1 = w\<lparr>stdout := stdout w @ [Raw_line (str_strip tx)]\<rparr>) \<and>
          e = ValueError \<and>
          process_line dec flt data w =
            (None, w1\<lparr>stdout := stdout w1 @ [Error_parsing_line ValueError]\<rparr>)"
proof -
  let ?w0 = "w\<lparr>stdout := stdout w @ [Raw_line (str_strip tx)]\<rparr>"
  have ok0: "window_ok ?w0" using assms(1) by simp
  from values_loop_ok[OF ok0 assms(4), of False False] obtain w1 where
    w1: "values_loop flt pre (False, False, ?w0) =
            (None, False \<or> list_ex (\<lambda>f. fst f \<in> set ppg_names) fs,
                   False \<or> list_ex (\<lambda>f. fst f \<in> set acc_names) fs, w1)"
      "window_ok w1" "untouched ?w0 w1"
      "current_record w1 = assign fs (current_record ?w0)"
      "length (data_buffers w1) = length (data_buffers ?w0)"
      "\<forall>i < length (data_buffers ?w0). data_buffers w1 ! i =
             snd (push_all (routed i fs) (data_buffers ?w0 ! i))"
    unfolding assms(6) by blast
  have e: "e = ValueError" using assms(5) by (rule token_of_raises)
  have pl: "process_line dec flt data w =
            (None, w1\<lparr>stdout := stdout w1 @ [Error_parsing_line ValueError]\<rparr>)"
    using process_line_raise[where dec=dec and data=data and w=w and flt=flt, OF assms(2,3,5) w1(1)] e by simp
  have nf: "fs = [] \<longrightarrow> w1 = ?w0"
  proof
    assume "fs = []"
    then have "values_loop flt pre (False, False, ?w0) = (None, False, False, ?w0)"
      using assms(4,6) values_loop_no_fields by metis
    then show "w1 = ?w0" using w1(1) by simp
  qed
  show ?thesis using w1(2-6) e pl nf by (intro exI[of _ w1]) simp
qed

text \<open>
  One line in a well-formed window: no exception leaves the handler, the window stays
  well formed, and the store is either as it was or one record longer.
\<close>

lemma process_line_ok:
  assumes "window_ok w"
  shows "\<exists>w'. process_line dec flt data w = (None, w') \<and> window_ok w' \<and>
           (data_records w' = data_records w \<and> sample_count w' = sample_count w \<or>
            data_records w' = data_records w @ [(sample_count w + 1, current_record w')] \<and>
            sample_count w' = sample_count w + 1 \<and>
            list_all (\<lambda>v. v \<noteq> 0) (map snd (current_record w')))"
proof (cases "dec data")
  case None
  then show ?thesis using assms by (simp add: process_line_decode_error)
next
  case (Some tx)
  let ?vals = "str_split CHR '','' (str_strip tx)"
  let ?w0 = "w\<lparr>stdout := stdout w @ [Raw_line (str_strip tx)]\<rparr>"
  show ?thesis
  proof (cases "no_raise flt ?vals")
    case True
    define fs where "fs = parsed_fields flt ?vals"
    from process_line_fields[where dec=dec and data=data, OF assms Some True fs_def] obtain w1 where
      w1: "window_ok w1" "untouched ?w0 w1"
        "process_line dec flt data w =
            (None, store_record (update_flags
               (list_ex (\<lambda>f. fst f \<in> set ppg_names) fs)
               (list_ex (\<lambda>f. fst f \<in> set acc_names) fs) w1))"
      by blast
    define w2 where "w2 = update_flags (list_ex (\<lambda>f. fst f \<in> set ppg_names) fs)
               (list_ex (\<lambda>f. fst f \<in> set acc_names) fs) w1"
    have ok2: "window_ok w2" using w1(1) by (simp add: w2_def window_ok_update_flags)
    have d2: "data_records w2 = data_records w" "sample_count w2 = sample_count w"
      using w1(2) by (simp_all add: w2_def update_flags_simps untouched_def)
    have ok3: "window_ok (store_record w2)" using ok2 by (rule window_ok_store_record)
    have "data_records (store_record w2) = data_records w \<and>
            sample_count (store_record w2) = sample_count w \<or>
          data_records (store_record w2) =
            data_records w @ [(sample_count w + 1, current_record (store_record w2))] \<and>
          sample_count (store_record w2) = sample_count w + 1 \<and>
          list_all (\<lambda>v. v \<noteq> 0) (map snd (current_record (store_record w2)))"
    proof (cases "ppg_updated w2 \<and> acc_updated w2 \<and>
                  list_all (\<lambda>v. v \<noteq> 0) (map snd (current_record w2))")
      case T: True
      have "store_ok w2" using ok2 by (simp add: window_ok_def)
      from store_record_emit[OF _ _ _ this] T have
        "store_record w2 = w2\<lparr>sample_count := sample_count w2 + 1,
           data_records := data_records w2 @ [(sample_count w2 + 1, current_record w2)],
           ppg_updated := False, acc_updated := False\<rparr>" by simp
      then show ?thesis using d2 T by simp
    next
      case False
      then have "store_record w2 = w2" by (rule store_record_skip)
      then show ?thesis using d2 by simp
    qed
    then show ?thesis using w1(3) ok3 unfolding w2_def by simp
  next
    case False
    from first_raise[OF False] obtain pre bad post e where
      d: "?vals = pre @ bad # post" "no_raise flt pre" "token_of flt bad = Raises e" by blast
    define fs where "fs = parsed_fields flt pre"
    from process_line_raise_fields[where dec=dec and data=data, OF assms Some d fs_def] obtain w1 where
      w1: "window_ok w1" "untouched ?w0 w1"
        "process_line dec flt data w =
            (None, w1\<lparr>stdout := stdout w1 @ [Error_parsing_line ValueError]\<rparr>)"
      by blast
    show ?thesis using w1 by (simp add: untouched_def)
  qed
qed

text \<open>The same for the loop over the lines.\<close>

lemma receive_serial_data_ok:
  assumes "window_ok w"
  shows "\<exists>w' new. receive_serial_data dec flt ds w = (None, w') \<and> window_ok w' \<and>
           fst ` set (current_record w) \<subseteq> fst ` set (current_record w') \<and>
           data_records w' = data_records w @ new \<and> length new \<le> length ds \<and>
           sample_count w' = sample_count w + int (length new) \<and>
           (\<forall>r \<in> snd ` set new. fst ` set (current_record w) \<subseteq> fst ` set r \<and>
                                  list_all (\<lambda>v. v \<noteq> 0) (map snd r))"
  using assms
proof (induction ds arbitrary: w)
  case Nil
  then show ?case by simp
next
  case (Cons d ds)
  from process_line_ok[OF Cons.prems, of dec flt d] obtain w1 where
    w1: "process_line dec flt d w = (None, w1)" "window_ok w1"
      "data_records w1 = data_records w \<and> sample_count w1 = sample_count w \<or>
       data_records w1 = data_records w @ [(sample_count w + 1, current_record w1)] \<and>
       sample_count w1 = sample_count w + 1 \<and>
       list_all (\<lambda>v. v \<noteq> 0) (map snd (current_record w1))"
    by blast
  have k1: "fst ` set (current_record w) \<subseteq> fst ` set (current_record w1)"
    using process_line_frame[OF w1(1)] by simp
  from Cons.IH[OF w1(2)] obtain w' new where
    w': "receive_serial_data dec flt ds w1 = (None, w')" "window_ok w'"
      "fst ` set (current_record w1) \<subseteq> fst ` set (current_record w')"
      "data_records w' = data_records w1 @ new" "length new \<le> length ds"
      "sample_count w' = sample_count w1 + int (length new)"
      "\<forall>r \<in> snd ` set new. fst ` set (current_record w1) \<subseteq> fst ` set r \<and>
                                  list_all (\<lambda>v. v \<noteq> 0) (map snd r)"
    by blast
  have run: "receive_serial_data dec flt (d # ds) w = (None, w')"
    using w1(1) w'(1) by simp
  have k: "fst ` set (current_record w) \<subseteq> fst ` set (current_record w')"
    using k1 w'(3) by (rule subset_trans)
  have newk: "\<forall>r \<in> snd ` set new. fst ` set (current_record w) \<subseteq> fst ` set r \<and>
                                  list_all (\<lambda>v. v \<noteq> 0) (map snd r)"
    using w'(7) k1 by blast
  from w1(3) show ?case
  proof
    assume a: "data_records w1 = data_records w \<and> sample_count w1 = sample_count w"
    show ?thesis
      using run w'(2) k w'(4,5,6) newk a
      by (intro exI[of _ w'] exI[of _ new]) simp
  next
    assume a: "data_records w1 = data_records w @ [(sample_count w + 1, current_record w1)] \<and>
       sample_count w1 = sample_count w + 1 \<and>
       list_all (\<lambda>v. v \<noteq> 0) (map snd (current_record w1))"
    let ?new = "(sample_count w + 1, current_record w1) # new"
    have "\<forall>r \<in> snd ` set ?new. fst ` set (current_record w) \<subseteq> fst ` set r \<and>
                                  list_all (\<lambda>v. v \<noteq> 0) (map snd r)"
      using newk k1 a by simp
    then show ?thesis
      using run w'(2) k w'(4,5,6) a
      by (intro exI[of _ w'] exI[of _ ?new]) simp
  qed
qed

section \<open>The window of the main program\<close>

lemma buffer_ok_init: "0 < c \<Longrightarrow> buffer_ok (CircularBuffer_init c)"
  by (simp add: buffer_ok_def CircularBuffer_init_def)

lemma get_data_init: "get_data (CircularBuffer_init c) = []"
  by (simp add: get_data_def CircularBuffer_init_def)

lemma main_window_simps:
  "data_buffers (main_window :: ('v::zero) window) = replicate 7 (CircularBuffer_init 1000)"
  "plot_data_items (main_window :: 'v window) = replicate 7 []"
  "data_records (main_window :: 'v window) = []"
  "current_record (main_window :: 'v window) =
     [(''C'', 0), (''R'', 0), (''IR'', 0), (''G'', 0), (''X'', 0), (''Y'', 0), (''Z'', 0)]"
  "ppg_updated (main_window :: 'v window) = False"
  "acc_updated (main_window :: 'v window) = False"
  "sample_count (main_window :: 'v window) = 0"
  "stdout (main_window :: 'v window) = []"
  "buffer_sizes (main_window :: 'v window) = [1000, 3000, 5000, 7000, 10000]"
  by (simp_all add: main_window_def add_graph_def window_init_def Let_def get_data_init
        numeral_eq_Suc)

lemma window_ok_main: "window_ok (main_window :: ('v::zero) window)"
  by (simp add: window_ok_def buffers_ok_def store_ok_def main_window_simps buffer_ok_init
        has_channels_def channels_def list_all_iff)

section \<open>The session store\<close>

text \<open>
  C4. From a well-formed window, for every sequence \<open>ds\<close> of lines: no exception leaves
  the reader; the store afterwards is the store before followed by the new records \<open>new\<close>,
  in the order the lines were processed, so no stored record is changed; there is at most
  one new record per line; and the keys of the store are \<open>1, 2, \<dots>, sample_count\<close> in
  order, without gap or repetition.
\<close>

theorem sample_indices_sequential:
  assumes "window_ok w"
  shows "\<exists>w' new. receive_serial_data dec flt ds w = (None, w') \<and> window_ok w' \<and>
           data_records w' = data_records w @ new \<and> length new \<le> length ds \<and>
           sample_count w' = sample_count w + int (length new) \<and>
           map fst (data_records w') = [1..sample_count w']"
proof -
  from receive_serial_data_ok[OF assms, of dec flt ds] obtain w' new where
    r: "receive_serial_data dec flt ds w = (None, w')" "window_ok w'"
       "data_records w' = data_records w @ new" "length new \<le> length ds"
       "sample_count w' = sample_count w + int (length new)"
    by blast
  have "map fst (data_records w') = [1..sample_count w']"
    using r(2) by (simp add: window_ok_def store_ok_def)
  then show ?thesis using r by blast
qed

theorem sample_indices_sequential_witness:
  "window_ok (main_window :: real window) \<and>
   (\<exists>w' new. receive_serial_data Some float_digits [''C:1,R:2,IR:3,G:4'', ''X:5,Y:6,Z:7'']
                (main_window :: real window) = (None, w') \<and>
      data_records w' = new \<and> length new \<le> 2 \<and> sample_count w' = int (length new) \<and>
      map fst (data_records w') = [1..sample_count w'])"
proof -
  have ok: "window_ok (main_window :: real window)" by (rule window_ok_main)
  from sample_indices_sequential[OF ok, of Some float_digits
      "[''C:1,R:2,IR:3,G:4'', ''X:5,Y:6,Z:7'']"]
  show ?thesis using ok by (auto simp: main_window_simps simp del: receive_serial_data.simps)
qed

section \<open>Changing the buffer size\<close>

text \<open>
  C7. When \<open>change_buffer_size\<close> returns, every plot buffer is a fresh buffer of the
  selected capacity: zero-filled, cursor 0, not wrapped, and \<open>get_data\<close> returns the empty
  sequence; there are as many buffers as before; the store, the sample count and the
  current record are as before. It returns for every index inside \<open>buffer_sizes\<close>
  (counted from the end when negative) and selects that entry.
\<close>

theorem change_buffer_size_resets:
  "(change_buffer_size i w = (None, w') \<longrightarrow>
      buffer_capacity w' \<in> set (buffer_sizes w) \<and>
      data_buffers w' =
        replicate (length (data_buffers w)) (CircularBuffer_init (buffer_capacity w')) \<and>
      list_all (\<lambda>b. get_data b = [] \<and> index b = 0 \<and> \<not> full b \<and>
                     capacity b = buffer_capacity w' \<and>
                     buffer b = replicate (buffer_capacity w') 0) (data_buffers w') \<and>
      data_records w' = data_records w \<and> sample_count w' = sample_count w \<and>
      current_record w' = current_record w) \<and>
   (0 \<le> i \<and> i < int (length (buffer_sizes w)) \<longrightarrow>
      fst (change_buffer_size i w) = None \<and>
      buffer_capacity (snd (change_buffer_size i w)) = buffer_sizes w ! nat i) \<and>
   (- int (length (buffer_sizes w)) \<le> i \<and> i < 0 \<longrightarrow>
      fst (change_buffer_size i w) = None \<and>
      buffer_capacity (snd (change_buffer_size i w)) =
        buffer_sizes w ! nat (int (length (buffer_sizes w)) + i))"
proof -
  have 1: "change_buffer_size i w = (None, w') \<longrightarrow>
      buffer_capacity w' \<in> set (buffer_sizes w) \<and>
      data_buffers w' =
        replicate (length (data_buffers w)) (CircularBuffer_init (buffer_capacity w')) \<and>
      list_all (\<lambda>b. get_data b = [] \<and> index b = 0 \<and> \<not> full b \<and>
                     capacity b = buffer_capacity w' \<and>
                     buffer b = replicate (buffer_capacity w') 0) (data_buffers w') \<and>
      data_records w' = data_records w \<and> sample_count w' = sample_count w \<and>
      current_record w' = current_record w"
  proof
    assume a: "change_buffer_size i w = (None, w')"
    let ?n = "int (length (buffer_sizes w))"
    let ?j = "if i < 0 then ?n + i else i"
    from a have j: "0 \<le> ?j" "?j < ?n"
      by (auto simp: change_buffer_size_def Let_def split: if_splits)
    from a j have w': "w' = w\<lparr>buffer_capacity := buffer_sizes w ! nat ?j,
        data_buffers := map (\<lambda>_. CircularBuffer_init (buffer_sizes w ! nat ?j)) (data_buffers w)\<rparr>"
      by (auto simp: change_buffer_size_def Let_def split: if_splits)
    have "nat ?j < length (buffer_sizes w)" using j by linarith
    then have mem: "buffer_sizes w ! nat ?j \<in> set (buffer_sizes w)" by (rule nth_mem)
    show "buffer_capacity w' \<in> set (buffer_sizes w) \<and>
      data_buffers w' =
        replicate (length (data_buffers w)) (CircularBuffer_init (buffer_capacity w')) \<and>
      list_all (\<lambda>b. get_data b = [] \<and> index b = 0 \<and> \<not> full b \<and>
                     capacity b = buffer_capacity w' \<and>
                     buffer b = replicate (buffer_capacity w') 0) (data_buffers w') \<and>
      data_records w' = data_records w \<and> sample_count w' = sample_count w \<and>
      current_record w' = current_record w"
      using mem unfolding w'
      by (simp add: map_replicate_const list_all_iff get_data_def CircularBuffer_init_def)
  qed
  have 2: "0 \<le> i \<and> i < int (length (buffer_sizes w)) \<longrightarrow>
      fst (change_buffer_size i w) = None \<and>
      buffer_capacity (snd (change_buffer_size i w)) = buffer_sizes w ! nat i"
    by (simp add: change_buffer_size_def Let_def)
  have 3: "- int (length (buffer_sizes w)) \<le> i \<and> i < 0 \<longrightarrow>
      fst (change_buffer_size i w) = None \<and>
      buffer_capacity (snd (change_buffer_size i w)) =
        buffer_sizes w ! nat (int (length (buffer_sizes w)) + i)"
    by (simp add: change_buffer_size_def Let_def)
  show ?thesis using 1 2 3 by blast
qed


theorem change_buffer_size_resets_witness:
  "change_buffer_size 2 (main_window :: real window) =
     (None, snd (change_buffer_size 2 (main_window :: real window))) \<and>
   (0::int) \<le> 2 \<and> (2::int) < int (length (buffer_sizes (main_window :: real window))) \<and>
   buffer_capacity (snd (change_buffer_size 2 (main_window :: real window))) = 5000 \<and>
   data_buffers (snd (change_buffer_size 2 (main_window :: real window))) =
     replicate 7 (CircularBuffer_init 5000) \<and>
   data_records (snd (change_buffer_size 2 (main_window :: real window))) = [] \<and>
   - int (length (buffer_sizes (main_window :: real window))) \<le> - 1 \<and> (- 1 :: int) < 0 \<and>
   fst (change_buffer_size (- 1) (main_window :: real window)) = None \<and>
   buffer_capacity (snd (change_buffer_size (- 1) (main_window :: real window))) = 10000"
proof -
  let ?w = "main_window :: real window"
  have h: "change_buffer_size 2 ?w = (None, snd (change_buffer_size 2 ?w))"
    by (simp add: change_buffer_size_def Let_def main_window_simps)
  have r: "(0::int) \<le> 2 \<and> (2::int) < int (length (buffer_sizes ?w))"
    "- int (length (buffer_sizes ?w)) \<le> - 1 \<and> (- 1 :: int) < 0"
    by (simp_all add: main_window_simps)
  from change_buffer_size_resets[of 2 ?w "snd (change_buffer_size 2 ?w)"]
       change_buffer_size_resets[of "- 1" ?w "snd (change_buffer_size (- 1) ?w)"] h r
  show ?thesis by (simp add: main_window_simps)
qed

section \<open>Export\<close>

lemma write_rows_ok:
  "list_all has_channels rs \<Longrightarrow> write_rows rs out = (None, out @ map csv_row rs)"
proof (induction rs arbitrary: out)
  case Nil
  then show ?case by simp
next
  case (Cons r rs)
  from Cons.prems have hc: "has_channels r" and rest: "list_all has_channels rs" by simp_all
  from hc obtain c r' ir g x y z where
    v: "map_of r ''C'' = Some c" "map_of r ''R'' = Some r'" "map_of r ''IR'' = Some ir"
       "map_of r ''G'' = Some g" "map_of r ''X'' = Some x" "map_of r ''Y'' = Some y"
       "map_of r ''Z'' = Some z"
    by (auto simp: has_channels_def channels_def)
  have row: "csv_row r = [Num c, Num r', Num ir, Num g, Num x, Num y, Num z]"
    using v by (simp add: csv_row_def channels_def)
  have "write_rows (r # rs) out = write_rows rs (out @ [csv_row r])"
    using v row by simp
  then show ?case using Cons.IH[OF rest, of "out @ [csv_row r]"] by simp
qed


text \<open>
  C8. With an empty store, whatever the file name chosen and whether or not the file
  could be opened, \<open>export_data\<close> writes no file, shows the warning "No data to export."
  and leaves the window, and so the store, as it was.
\<close>

theorem export_empty_store:
  "data_records w = [] \<Longrightarrow>
   export_data filename can_open w =
     (None, Warning ''Export Error'' ''No data to export.'', w)"
  by (simp add: export_data_def)

theorem export_empty_store_witness:
  "data_records (main_window :: real window) = [] \<and>
   export_data ''out.csv'' True (main_window :: real window) =
     (None, Warning ''Export Error'' ''No data to export.'', main_window)"
  using export_empty_store[of "main_window :: real window" "''out.csv''" True]
  by (simp add: main_window_simps)

text \<open>
  C6. For a well-formed window with a non-empty store, a file name chosen and a file that
  opens, \<open>export_data\<close> writes the header row \<open>C, R, IR, G, X, Y, Z\<close> and then, for each
  stored record in the order of the store, the row of its seven values in that column
  order: one line more than there are records. The keys of the store are
  \<open>1, \<dots>, sample_count\<close> in that order, so the rows are in ascending sample index. A row
  depends only on the values stored under the seven keys, not on the order in which the
  keys entered the record. The window is unchanged.
\<close>

theorem export_header_and_rows:
  assumes "window_ok w" "data_records w \<noteq> []" "filename \<noteq> []"
  shows "export_data filename True w =
           (Some (filename, map Name channels # map (\<lambda>kr. csv_row (snd kr)) (data_records w)),
            Information ''Export Success'' (''Data exported to '' @ filename), w) \<and>
         map Name channels =
           [Name ''C'', Name ''R'', Name ''IR'', Name ''G'', Name ''X'', Name ''Y'', Name ''Z''] \<and>
         length (map Name channels # map (\<lambda>kr. csv_row (snd kr)) (data_records w)) =
           1 + length (data_records w) \<and>
         map fst (data_records w) = [1..sample_count w] \<and>
         list_all (\<lambda>kr. list_all (\<lambda>c. map_of (snd kr) c \<noteq> None) channels) (data_records w) \<and>
         (\<forall>r r'. map_of r = map_of r' \<longrightarrow> csv_row r = csv_row r')"
proof -
  have hc: "list_all has_channels (map snd (data_records w))"
    and keys: "map fst (data_records w) = [1..sample_count w]"
    using assms(1) by (simp_all add: window_ok_def store_ok_def)
  have wr: "write_rows (map snd (data_records w)) [map Name channels] =
      (None, [map Name channels] @ map csv_row (map snd (data_records w)))"
    using hc by (rule write_rows_ok)
  have 1: "export_data filename True w =
           (Some (filename, map Name channels # map (\<lambda>kr. csv_row (snd kr)) (data_records w)),
            Information ''Export Success'' (''Data exported to '' @ filename), w)"
    using assms(2,3) wr by (simp add: export_data_def comp_def)
  have 2: "list_all (\<lambda>kr. list_all (\<lambda>c. map_of (snd kr) c \<noteq> None) channels) (data_records w)"
    using hc by (simp add: list_all_iff has_channels_def)
  have 3: "\<forall>r r'. map_of r = map_of r' \<longrightarrow> csv_row r = csv_row r'"
    by (simp add: csv_row_def)
  show ?thesis using 1 2 3 keys by (simp add: channels_def)
qed


theorem export_header_and_rows_witness:
  "window_ok ((main_window :: real window)\<lparr>sample_count := 2, data_records :=
      [(1, [(''C'', 1), (''R'', 2), (''IR'', 3), (''G'', 4), (''X'', 5), (''Y'', 6), (''Z'', 7)]),
       (2, [(''C'', 9), (''R'', 2), (''IR'', 3), (''G'', 4), (''X'', 5), (''Y'', 6), (''Z'', 8)])]\<rparr>) \<and>
   fst (export_data ''out.csv'' True ((main_window :: real window)\<lparr>sample_count := 2, data_records :=
      [(1, [(''C'', 1), (''R'', 2), (''IR'', 3), (''G'', 4), (''X'', 5), (''Y'', 6), (''Z'', 7)]),
       (2, [(''C'', 9), (''R'', 2), (''IR'', 3), (''G'', 4), (''X'', 5), (''Y'', 6), (''Z'', 8)])]\<rparr>)) =
     Some (''out.csv'',
       [[Name ''C'', Name ''R'', Name ''IR'', Name ''G'', Name ''X'', Name ''Y'', Name ''Z''],
        [Num 1, Num 2, Num 3, Num 4, Num 5, Num 6, Num 7],
        [Num 9, Num 2, Num 3, Num 4, Num 5, Num 6, Num 8]])"
proof -
  let ?w = "(main_window :: real window)\<lparr>sample_count := 2, data_records :=
      [(1, [(''C'', 1), (''R'', 2), (''IR'', 3), (''G'', 4), (''X'', 5), (''Y'', 6), (''Z'', 7)]),
       (2, [(''C'', 9), (''R'', 2), (''IR'', 3), (''G'', 4), (''X'', 5), (''Y'', 6), (''Z'', 8)])]\<rparr>"
  have u: "[1..2::int] = [1, 2]" by (simp add: upto.simps)
  have ok: "window_ok ?w"
    using window_ok_main[where 'v = real]
    by (simp add: window_ok_def buffers_ok_def store_ok_def has_channels_def channels_def u)
  have ne: "data_records ?w \<noteq> []" "''out.csv'' \<noteq> []" by simp_all
  have "export_data ''out.csv'' True ?w =
      (Some (''out.csv'', map Name channels # map (\<lambda>kr. csv_row (snd kr)) (data_records ?w)),
       Information ''Export Success'' (''Data exported to '' @ ''out.csv''), ?w)"
    using export_header_and_rows[OF ok ne] by (rule conjunct1)
  then have "fst (export_data ''out.csv'' True ?w) =
      Some (''out.csv'', map Name channels # map (\<lambda>kr. csv_row (snd kr)) (data_records ?w))"
    by (simp only: fst_conv)
  moreover have "map Name channels # map (\<lambda>kr. csv_row (snd kr)) (data_records ?w) =
       [[Name ''C'', Name ''R'', Name ''IR'', Name ''G'', Name ''X'', Name ''Y'', Name ''Z''],
        [Num 1, Num 2, Num 3, Num 4, Num 5, Num 6, Num 7],
        [Num 9, Num 2, Num 3, Num 4, Num 5, Num 6, Num 8]]"
    by (simp add: csv_row_def channels_def)
  ultimately show ?thesis using ok by (simp only: simp_thms)
qed

section \<open>The two example lines\<close>

lemma example_splits:
  "str_split CHR '','' (str_strip ''C:1,R:2,IR:3,G:4'') = [''C:1'', ''R:2'', ''IR:3'', ''G:4'']"
  "str_split CHR '','' (str_strip ''X:5,Y:6,Z:7'') = [''X:5'', ''Y:6'', ''Z:7'']"
  "str_split CHR '','' (str_strip ''C:5,R:abc'') = [''C:5'', ''R:abc'']"
  "str_split CHR '','' (str_strip ''C:1,Q:9'') = [''C:1'', ''Q:9'']"
  by (simp_all add: str_strip_def py_isspace_def)

lemma example_strips:
  "str_strip ''C:1,R:2,IR:3,G:4'' = ''C:1,R:2,IR:3,G:4''"
  "str_strip ''X:5,Y:6,Z:7'' = ''X:5,Y:6,Z:7''"
  "str_strip ''C:5,R:abc'' = ''C:5,R:abc''"
  "str_strip ''C:1,Q:9'' = ''C:1,Q:9''"
  by (simp_all add: str_strip_def py_isspace_def)

lemma example_tokens:
  "token_of flt ''C:1'' = (case flt ''1'' of None \<Rightarrow> Raises ValueError | Some v \<Rightarrow> Field ''C'' v)"
  "token_of flt ''R:2'' = (case flt ''2'' of None \<Rightarrow> Raises ValueError | Some v \<Rightarrow> Field ''R'' v)"
  "token_of flt ''IR:3'' = (case flt ''3'' of None \<Rightarrow> Raises ValueError | Some v \<Rightarrow> Field ''IR'' v)"
  "token_of flt ''G:4'' = (case flt ''4'' of None \<Rightarrow> Raises ValueError | Some v \<Rightarrow> Field ''G'' v)"
  "token_of flt ''X:5'' = (case flt ''5'' of None \<Rightarrow> Raises ValueError | Some v \<Rightarrow> Field ''X'' v)"
  "token_of flt ''Y:6'' = (case flt ''6'' of None \<Rightarrow> Raises ValueError | Some v \<Rightarrow> Field ''Y'' v)"
  "token_of flt ''Z:7'' = (case flt ''7'' of None \<Rightarrow> Raises ValueError | Some v \<Rightarrow> Field ''Z'' v)"
  "token_of flt ''C:5'' = (case flt ''5'' of None \<Rightarrow> Raises ValueError | Some v \<Rightarrow> Field ''C'' v)"
  "token_of flt ''R:abc'' = (case flt ''abc'' of None \<Rightarrow> Raises ValueError | Some v \<Rightarrow> Field ''R'' v)"
  "token_of flt ''Q:9'' = (case flt ''9'' of None \<Rightarrow> Raises ValueError | Some v \<Rightarrow> Field ''Q'' v)"
  by (simp_all add: token_of_def str_strip_def py_isspace_def)

lemma example_floats:
  "float_digits ''1'' = Some 1" "float_digits ''2'' = Some 2" "float_digits ''3'' = Some 3"
  "float_digits ''4'' = Some 4" "float_digits ''5'' = Some 5" "float_digits ''6'' = Some 6"
  "float_digits ''7'' = Some 7" "float_digits ''9'' = Some 9" "float_digits ''abc'' = None"
  by (simp_all add: float_digits_def str_strip_def py_isspace_def)

lemma sample_count_empty_store: "store_ok w \<Longrightarrow> data_records w = [] \<Longrightarrow> sample_count w = 0"
proof -
  assume a: "store_ok w" "data_records w = []"
  then have "[1..sample_count w] = []" "0 \<le> sample_count w" by (simp_all add: store_ok_def)
  then show ?thesis by (simp add: upto_Nil)
qed

text \<open>
  C3. Take a well-formed window whose current record has the seven channels at 0, with
  both group flags false and an empty store, and a \<open>float\<close> that reads the digits 1 to 7
  as non-zero values. The line \<open>C:1,R:2,IR:3,G:4\<close> stores no record; the line
  \<open>X:5,Y:6,Z:7\<close> after it stores exactly one, under index 1, with the seven values.
\<close>

theorem two_lines_one_sample:
  assumes ok: "window_ok w"
    and cr: "current_record w =
      [(''C'', 0), (''R'', 0), (''IR'', 0), (''G'', 0), (''X'', 0), (''Y'', 0), (''Z'', 0)]"
    and fl: "\<not> ppg_updated w" "\<not> acc_updated w"
    and st: "data_records w = []"
    and d1: "dec d1 = Some ''C:1,R:2,IR:3,G:4''"
    and d2: "dec d2 = Some ''X:5,Y:6,Z:7''"
    and f: "flt ''1'' = Some v1" "flt ''2'' = Some v2" "flt ''3'' = Some v3" "flt ''4'' = Some v4"
      "flt ''5'' = Some v5" "flt ''6'' = Some v6" "flt ''7'' = Some v7"
    and nz: "v1 \<noteq> 0" "v2 \<noteq> 0" "v3 \<noteq> 0" "v4 \<noteq> 0" "v5 \<noteq> 0" "v6 \<noteq> 0" "v7 \<noteq> 0"
  shows "\<exists>w1 w2. process_line dec flt d1 w = (None, w1) \<and> data_records w1 = [] \<and>
           process_line dec flt d2 w1 = (None, w2) \<and>
           data_records w2 =
             [(1, [(''C'', v1), (''R'', v2), (''IR'', v3), (''G'', v4),
                   (''X'', v5), (''Y'', v6), (''Z'', v7)])] \<and>
           sample_count w2 = 1 \<and>
           receive_serial_data dec flt [d1, d2] w = (None, w2)"
proof -
  let ?l1 = "''C:1,R:2,IR:3,G:4''" and ?l2 = "''X:5,Y:6,Z:7''"
  let ?fs1 = "[(''C'', v1), (''R'', v2), (''IR'', v3), (''G'', v4)]"
  let ?fs2 = "[(''X'', v5), (''Y'', v6), (''Z'', v7)]"
  have sc: "sample_count w = 0"
    using ok st by (simp add: window_ok_def sample_count_empty_store)
  \<comment> \<open>the first line\<close>
  have nr1: "no_raise flt (str_split CHR '','' (str_strip ?l1))"
    by (simp add: example_splits no_raise_def example_tokens f)
  have fs1: "?fs1 = parsed_fields flt (str_split CHR '','' (str_strip ?l1))"
    by (simp add: example_splits parsed_fields_def example_tokens f)
  from process_line_fields[where dec=dec and data=d1, OF ok d1 nr1 fs1] obtain u1 where
    u1: "window_ok u1"
      "untouched (w\<lparr>stdout := stdout w @ [Raw_line (str_strip ?l1)]\<rparr>) u1"
      "current_record u1 = assign ?fs1 (current_record w)"
      "process_line dec flt d1 w =
         (None, store_record (update_flags
               (list_ex (\<lambda>f. fst f \<in> set ppg_names) ?fs1)
               (list_ex (\<lambda>f. fst f \<in> set acc_names) ?fs1) u1))"
    by blast
  define w1 where "w1 = update_flags True False u1"
  have g1: "list_ex (\<lambda>f. fst f \<in> set ppg_names) ?fs1 = True"
    "list_ex (\<lambda>f. fst f \<in> set acc_names) ?fs1 = False"
    by (simp_all add: ppg_names_def acc_names_def)
  have cr1: "current_record w1 =
      [(''C'', v1), (''R'', v2), (''IR'', v3), (''G'', v4), (''X'', 0), (''Y'', 0), (''Z'', 0)]"
    using u1(3) by (simp add: w1_def update_flags_simps assign_def cr)
  have skip1: "store_record w1 = w1"
    by (rule store_record_skip) (simp add: cr1)
  have p1: "process_line dec flt d1 w = (None, w1)"
    using u1(4) skip1 by (simp only: g1 w1_def)
  have ok1: "window_ok w1" using u1(1) by (simp add: w1_def window_ok_update_flags)
  have s1: "data_records w1 = []" "sample_count w1 = 0" "ppg_updated w1" "\<not> acc_updated w1"
    using u1(2) st sc fl by (simp_all add: w1_def update_flags_simps untouched_def)
  \<comment> \<open>the second line\<close>
  have nr2: "no_raise flt (str_split CHR '','' (str_strip ?l2))"
    by (simp add: example_splits no_raise_def example_tokens f)
  have fs2: "?fs2 = parsed_fields flt (str_split CHR '','' (str_strip ?l2))"
    by (simp add: example_splits parsed_fields_def example_tokens f)
  from process_line_fields[where dec=dec and data=d2, OF ok1 d2 nr2 fs2] obtain u2 where
    u2: "window_ok u2"
      "untouched (w1\<lparr>stdout := stdout w1 @ [Raw_line (str_strip ?l2)]\<rparr>) u2"
      "current_record u2 = assign ?fs2 (current_record w1)"
      "process_line dec flt d2 w1 =
         (None, store_record (update_flags
               (list_ex (\<lambda>f. fst f \<in> set ppg_names) ?fs2)
               (list_ex (\<lambda>f. fst f \<in> set acc_names) ?fs2) u2))"
    by blast
  define w2 where "w2 = update_flags False True u2"
  have g2: "list_ex (\<lambda>f. fst f \<in> set ppg_names) ?fs2 = False"
    "list_ex (\<lambda>f. fst f \<in> set acc_names) ?fs2 = True"
    by (simp_all add: ppg_names_def acc_names_def)
  have cr2: "current_record w2 =
      [(''C'', v1), (''R'', v2), (''IR'', v3), (''G'', v4), (''X'', v5), (''Y'', v6), (''Z'', v7)]"
    using u2(3) by (simp add: w2_def update_flags_simps assign_def cr1)
  have s2: "data_records w2 = []" "sample_count w2 = 0" "ppg_updated w2" "acc_updated w2"
    using u2(2) s1 by (simp_all add: w2_def update_flags_simps untouched_def)
  have "window_ok w2" using u2(1) by (simp add: w2_def window_ok_update_flags)
  then have ok2: "store_ok w2" by (simp add: window_ok_def)
  have all2: "list_all (\<lambda>v. v \<noteq> 0) (map snd (current_record w2))"
    by (simp add: cr2 nz)
  have emit: "store_record w2 =
     w2\<lparr>sample_count := sample_count w2 + 1,
        data_records := data_records w2 @ [(sample_count w2 + 1, current_record w2)],
        ppg_updated := False, acc_updated := False\<rparr>"
    using store_record_emit[OF s2(3) s2(4) all2 ok2] .
  have p2: "process_line dec flt d2 w1 = (None, store_record w2)"
    using u2(4) by (simp only: g2 w2_def)
  have r2: "data_records (store_record w2) =
             [(1, [(''C'', v1), (''R'', v2), (''IR'', v3), (''G'', v4),
                   (''X'', v5), (''Y'', v6), (''Z'', v7)])]"
    "sample_count (store_record w2) = 1"
    by (simp_all add: emit s2 cr2)
  have run: "receive_serial_data dec flt [d1, d2] w = (None, store_record w2)"
    using p1 p2 by simp
  show ?thesis
    using p1 s1(1) p2 r2 run by (intro exI[of _ w1] exI[of _ "store_record w2"]) simp
qed

theorem two_lines_one_sample_witness:
  "\<exists>w1 w2. process_line Some float_digits ''C:1,R:2,IR:3,G:4'' (main_window :: real window)
              = (None, w1) \<and> data_records w1 = [] \<and>
           process_line Some float_digits ''X:5,Y:6,Z:7'' w1 = (None, w2) \<and>
           data_records w2 =
             [(1, [(''C'', 1), (''R'', 2), (''IR'', 3), (''G'', 4),
                   (''X'', 5), (''Y'', 6), (''Z'', 7)])] \<and>
           sample_count w2 = 1 \<and>
           receive_serial_data Some float_digits [''C:1,R:2,IR:3,G:4'', ''X:5,Y:6,Z:7'']
             (main_window :: real window) = (None, w2)"
  by (rule two_lines_one_sample[where dec = Some and flt = float_digits and w = main_window])
     (simp_all add: window_ok_main main_window_simps example_floats)

section \<open>A zero value blocks the emission\<close>

lemma has_zero_iff:
  "0 \<in> set (map snd r) \<longleftrightarrow> \<not> list_all (\<lambda>v. v \<noteq> 0) (map snd r)"
  by (induction r) auto

lemma stays_zero_no_emission:
  "stays_zero dec flt c ds w \<Longrightarrow>
   data_records (snd (receive_serial_data dec flt ds w)) = data_records w \<and>
   sample_count (snd (receive_serial_data dec flt ds w)) = sample_count w"
proof (induction ds arbitrary: w)
  case Nil
  then show ?case by simp
next
  case (Cons d ds)
  obtain e w1 where p: "process_line dec flt d w = (e, w1)" by (cases "process_line dec flt d w")
  from Cons.prems p have z: "map_of (current_record w1) c = Some 0"
    and rest: "e = None \<Longrightarrow> stays_zero dec flt c ds w1"
    by (auto split: option.splits)
  from z have "(c, 0) \<in> set (current_record w1)" by (rule map_of_SomeD)
  then have "0 \<in> set (map snd (current_record w1))" by force
  then have "\<not> list_all (\<lambda>v. v \<noteq> 0) (map snd (current_record w1))"
    by (rule has_zero_iff[THEN iffD1])
  with process_line_frame[OF p] have same: "data_records w1 = data_records w"
    "sample_count w1 = sample_count w" by simp_all
  show ?case
  proof (cases e)
    case None
    from Cons.IH[OF rest[OF None]] show ?thesis using p None same by simp
  next
    case (Some e')
    then show ?thesis using p same by simp
  qed
qed

text \<open>
  C5. For every line: when the current record at the end of the line holds a value that
  is exactly 0, the line stores no record and a group flag that was set stays set. In a
  well-formed window, after a line without a malformed field, each group flag is set if
  it was set before or the line has a field of that group, so both flags stay set when
  they are. Consequently, while a channel is 0 at the end of every line, no record is
  ever stored.
\<close>

theorem zero_value_blocks_emission:
  "(process_line dec flt data w = (e, w') \<and> 0 \<in> set (map snd (current_record w')) \<longrightarrow>
      data_records w' = data_records w \<and> sample_count w' = sample_count w \<and>
      (ppg_updated w \<longrightarrow> ppg_updated w') \<and> (acc_updated w \<longrightarrow> acc_updated w')) \<and>
   (window_ok w \<and> dec data = Some tx \<and> no_raise flt (str_split CHR '','' (str_strip tx)) \<and>
    process_line dec flt data w = (e, w') \<and> 0 \<in> set (map snd (current_record w')) \<longrightarrow>
      ppg_updated w' =
        (ppg_updated w \<or> list_ex (\<lambda>f. fst f \<in> set ppg_names)
                           (parsed_fields flt (str_split CHR '','' (str_strip tx)))) \<and>
      acc_updated w' =
        (acc_updated w \<or> list_ex (\<lambda>f. fst f \<in> set acc_names)
                           (parsed_fields flt (str_split CHR '','' (str_strip tx))))) \<and>
   (stays_zero dec flt c ds w \<longrightarrow>
      data_records (snd (receive_serial_data dec flt ds w)) = data_records w \<and>
      sample_count (snd (receive_serial_data dec flt ds w)) = sample_count w)"
proof -
  have 1: "process_line dec flt data w = (e, w') \<and> 0 \<in> set (map snd (current_record w')) \<longrightarrow>
      data_records w' = data_records w \<and> sample_count w' = sample_count w \<and>
      (ppg_updated w \<longrightarrow> ppg_updated w') \<and> (acc_updated w \<longrightarrow> acc_updated w')"
  proof
    assume a: "process_line dec flt data w = (e, w') \<and> 0 \<in> set (map snd (current_record w'))"
    then have "0 \<in> set (map snd (current_record w'))" by (rule conjunct2)
    then have "\<not> list_all (\<lambda>v. v \<noteq> 0) (map snd (current_record w'))"
      by (rule has_zero_iff[THEN iffD1])
    with process_line_frame[of dec flt data w e w'] a
    show "data_records w' = data_records w \<and> sample_count w' = sample_count w \<and>
      (ppg_updated w \<longrightarrow> ppg_updated w') \<and> (acc_updated w \<longrightarrow> acc_updated w')" by blast
  qed
  have 2: "window_ok w \<and> dec data = Some tx \<and> no_raise flt (str_split CHR '','' (str_strip tx)) \<and>
    process_line dec flt data w = (e, w') \<and> 0 \<in> set (map snd (current_record w')) \<longrightarrow>
      ppg_updated w' =
        (ppg_updated w \<or> list_ex (\<lambda>f. fst f \<in> set ppg_names)
                           (parsed_fields flt (str_split CHR '','' (str_strip tx)))) \<and>
      acc_updated w' =
        (acc_updated w \<or> list_ex (\<lambda>f. fst f \<in> set acc_names)
                           (parsed_fields flt (str_split CHR '','' (str_strip tx))))"
  proof
    let ?fs = "parsed_fields flt (str_split CHR '','' (str_strip tx))"
    assume a: "window_ok w \<and> dec data = Some tx \<and>
      no_raise flt (str_split CHR '','' (str_strip tx)) \<and>
      process_line dec flt data w = (e, w') \<and> 0 \<in> set (map snd (current_record w'))"
    then have ok: "window_ok w" and d: "dec data = Some tx"
      and nr: "no_raise flt (str_split CHR '','' (str_strip tx))"
      and p: "process_line dec flt data w = (e, w')"
      and z: "0 \<in> set (map snd (current_record w'))" by simp_all
    from process_line_fields[where dec=dec and data=data, OF ok d nr refl] obtain w1 where
      w1: "untouched (w\<lparr>stdout := stdout w @ [Raw_line (str_strip tx)]\<rparr>) w1"
        "process_line dec flt data w =
           (None, store_record (update_flags
               (list_ex (\<lambda>f. fst f \<in> set ppg_names) ?fs)
               (list_ex (\<lambda>f. fst f \<in> set acc_names) ?fs) w1))"
      by blast
    define w2 where "w2 = update_flags (list_ex (\<lambda>f. fst f \<in> set ppg_names) ?fs)
               (list_ex (\<lambda>f. fst f \<in> set acc_names) ?fs) w1"
    have w': "w' = store_record w2" using p w1(2) by (simp add: w2_def)
    have "current_record w2 = current_record w'" by (simp add: w' store_record_simps)
    then have "0 \<in> set (map snd (current_record w2))" using z by simp
    then have "\<not> list_all (\<lambda>v. v \<noteq> 0) (map snd (current_record w2))"
      by (rule has_zero_iff[THEN iffD1])
    then have "store_record w2 = w2" by (intro store_record_skip) simp
    then have "w' = w2" using w' by simp
    then show "ppg_updated w' = (ppg_updated w \<or> list_ex (\<lambda>f. fst f \<in> set ppg_names) ?fs) \<and>
      acc_updated w' = (acc_updated w \<or> list_ex (\<lambda>f. fst f \<in> set acc_names) ?fs)"
      using w1(1) by (simp add: w2_def update_flags_simps untouched_def)
  qed
  have 3: "stays_zero dec flt c ds w \<longrightarrow>
      data_records (snd (receive_serial_data dec flt ds w)) = data_records w \<and>
      sample_count (snd (receive_serial_data dec flt ds w)) = sample_count w"
    using stays_zero_no_emission[of dec flt c ds w] by blast
  show ?thesis using 1 2 3 by blast
qed


lemma example_zero_line:
  "\<exists>w1. process_line Some float_digits ''C:1,R:2,IR:3,G:4,X:5,Y:6'' (main_window :: real window)
            = (None, w1) \<and>
        current_record w1 =
          [(''C'', 1), (''R'', 2), (''IR'', 3), (''G'', 4), (''X'', 5), (''Y'', 6), (''Z'', 0)] \<and>
        no_raise float_digits (str_split CHR '','' (str_strip ''C:1,R:2,IR:3,G:4,X:5,Y:6''))"
proof -
  let ?l = "''C:1,R:2,IR:3,G:4,X:5,Y:6''"
  let ?fs = "[(''C'', 1), (''R'', 2), (''IR'', 3), (''G'', 4), (''X'', 5), (''Y'', 6 :: real)]"
  let ?w = "main_window :: real window"
  have sp: "str_split CHR '','' (str_strip ?l) = [''C:1'', ''R:2'', ''IR:3'', ''G:4'', ''X:5'', ''Y:6'']"
    by (simp add: str_strip_def py_isspace_def)
  have nr: "no_raise float_digits (str_split CHR '','' (str_strip ?l))"
    by (simp add: sp no_raise_def example_tokens example_floats)
  have fs: "?fs = parsed_fields float_digits (str_split CHR '','' (str_strip ?l))"
    by (simp add: sp parsed_fields_def example_tokens example_floats)
  have d: "Some ?l = Some ?l" by simp
  from process_line_fields[where dec=Some and data="?l", OF window_ok_main d nr fs] obtain u where
    u: "current_record u = assign ?fs (current_record ?w)"
       "process_line Some float_digits ?l ?w =
         (None, store_record (update_flags
               (list_ex (\<lambda>f. fst f \<in> set ppg_names) ?fs)
               (list_ex (\<lambda>f. fst f \<in> set acc_names) ?fs) u))"
    by blast
  define w2 where "w2 = update_flags (list_ex (\<lambda>f. fst f \<in> set ppg_names) ?fs)
               (list_ex (\<lambda>f. fst f \<in> set acc_names) ?fs) u"
  have cr: "current_record w2 =
      [(''C'', 1), (''R'', 2), (''IR'', 3), (''G'', 4), (''X'', 5), (''Y'', 6), (''Z'', 0)]"
    using u(1) by (simp add: w2_def update_flags_simps assign_def main_window_simps)
  have "store_record w2 = w2" by (rule store_record_skip) (simp add: cr)
  then have "process_line Some float_digits ?l ?w = (None, w2)"
    using u(2) by (simp add: w2_def)
  then show ?thesis using cr nr by blast
qed

theorem zero_value_blocks_emission_witness:
  "\<exists>w1. process_line Some float_digits ''C:1,R:2,IR:3,G:4,X:5,Y:6'' (main_window :: real window)
            = (None, w1) \<and>
        0 \<in> set (map snd (current_record w1)) \<and>
        window_ok (main_window :: real window) \<and>
        no_raise float_digits (str_split CHR '','' (str_strip ''C:1,R:2,IR:3,G:4,X:5,Y:6'')) \<and>
        stays_zero Some float_digits ''Z'' [''C:1,R:2,IR:3,G:4,X:5,Y:6'']
          (main_window :: real window) \<and>
        data_records w1 = [] \<and> sample_count w1 = 0 \<and> ppg_updated w1 \<and> acc_updated w1 \<and>
        data_records (snd (receive_serial_data Some float_digits [''C:1,R:2,IR:3,G:4,X:5,Y:6'']
          (main_window :: real window))) = []"
proof -
  let ?l = "''C:1,R:2,IR:3,G:4,X:5,Y:6''"
  let ?w = "main_window :: real window"
  from example_zero_line obtain w1 where
    w1: "process_line Some float_digits ?l ?w = (None, w1)"
      "current_record w1 =
          [(''C'', 1), (''R'', 2), (''IR'', 3), (''G'', 4), (''X'', 5), (''Y'', 6), (''Z'', 0)]"
      "no_raise float_digits (str_split CHR '','' (str_strip ?l))"
    by blast
  have z: "0 \<in> set (map snd (current_record w1))" by (simp add: w1(2))
  have sz: "stays_zero Some float_digits ''Z'' [?l] ?w" by (simp add: w1(1,2))
  have sp: "str_split CHR '','' (str_strip ?l) = [''C:1'', ''R:2'', ''IR:3'', ''G:4'', ''X:5'', ''Y:6'']"
    by (simp add: str_strip_def py_isspace_def)
  have fs: "parsed_fields float_digits (str_split CHR '','' (str_strip ?l)) =
      [(''C'', 1), (''R'', 2), (''IR'', 3), (''G'', 4), (''X'', 5), (''Y'', 6)]"
    by (simp add: sp parsed_fields_def example_tokens example_floats)
  from zero_value_blocks_emission[of Some float_digits ?l ?w None w1 ?l "''Z''" "[?l]"]
    w1(1,3) z sz window_ok_main[where 'v = real]
  have "data_records w1 = [] \<and> sample_count w1 = 0 \<and> ppg_updated w1 \<and> acc_updated w1 \<and>
        data_records (snd (receive_serial_data Some float_digits [?l] ?w)) = []"
    by (simp add: main_window_simps fs ppg_names_def acc_names_def
          del: receive_serial_data.simps)
  then show ?thesis using w1(1,3) z sz window_ok_main[where 'v = real]
    by (intro exI[of _ w1]) simp
qed

section \<open>Lines with a malformed field\<close>

lemma get_data_push_init:
  "0 < n \<Longrightarrow> get_data (snd (push_all [x] (CircularBuffer_init n))) = [x]"
proof -
  assume "0 < n"
  from push_all_filled[OF this, of "[x]"] obtain b where
    "push_all [x] (CircularBuffer_init n) = (None, b)" "filled n [x] b" by blast
  then show ?thesis using \<open>0 < n\<close> by (simp add: filled_def del: push_all.simps)
qed

text \<open>The line \<open>C:5,R:abc\<close> in the window of the main program.\<close>

lemma example_malformed_line:
  "\<exists>w'. process_line Some float_digits ''C:5,R:abc'' (main_window :: real window) = (None, w') \<and>
        current_record w' =
          [(''C'', 5), (''R'', 0), (''IR'', 0), (''G'', 0), (''X'', 0), (''Y'', 0), (''Z'', 0)] \<and>
        get_data (data_buffers w' ! 0) = [5] \<and>
        stdout w' = [Raw_line ''C:5,R:abc'', Error_parsing_line ValueError]"
proof -
  let ?l = "''C:5,R:abc''"
  let ?w = "main_window :: real window"
  have sp: "str_split CHR '','' (str_strip ?l) = [] @ ''C:5'' # [] @ ''R:abc'' # []"
    by (simp add: example_splits)
  have sp': "str_split CHR '','' (str_strip ?l) = [''C:5''] @ ''R:abc'' # []"
    by (simp add: example_splits)
  have nr: "no_raise float_digits [''C:5'']"
    by (simp add: no_raise_def example_tokens example_floats)
  have bad: "token_of float_digits ''R:abc'' = Raises ValueError"
    by (simp add: example_tokens example_floats)
  have fs: "[(''C'', 5::real)] = parsed_fields float_digits [''C:5'']"
    by (simp add: parsed_fields_def example_tokens example_floats)
  have d: "Some ?l = Some ?l" by simp
  from process_line_raise_fields[where dec=Some and data="?l", OF window_ok_main d sp' nr bad fs]
  obtain w1 where
    w1: "untouched (?w\<lparr>stdout := stdout ?w @ [Raw_line (str_strip ?l)]\<rparr>) w1"
      "current_record w1 = assign [(''C'', 5)] (current_record ?w)"
      "\<forall>i < length (data_buffers ?w). data_buffers w1 ! i =
             snd (push_all (routed i [(''C'', 5)]) (data_buffers ?w ! i))"
      "process_line Some float_digits ?l ?w =
            (None, w1\<lparr>stdout := stdout w1 @ [Error_parsing_line ValueError]\<rparr>)"
    by blast
  let ?w' = "w1\<lparr>stdout := stdout w1 @ [Error_parsing_line ValueError]\<rparr>"
  have cr: "current_record ?w' =
          [(''C'', 5), (''R'', 0), (''IR'', 0), (''G'', 0), (''X'', 0), (''Y'', 0), (''Z'', 0)]"
    using w1(2) by (simp add: assign_def main_window_simps)
  have "data_buffers w1 ! 0 = snd (push_all (routed 0 [(''C'', 5)]) (data_buffers ?w ! 0))"
    using w1(3) by (simp add: main_window_simps)
  also have "\<dots> = snd (push_all [5] (CircularBuffer_init 1000))"
    by (simp add: routed_def sensor_map_def main_window_simps del: push_all.simps)
  finally have "get_data (data_buffers ?w' ! 0) = [5]"
    by (simp add: get_data_push_init del: push_all.simps)
  moreover have "stdout ?w' = [Raw_line ?l, Error_parsing_line ValueError]"
    using w1(1) by (simp add: untouched_def main_window_simps example_strips)
  ultimately show ?thesis using w1(4) cr by blast
qed

text \<open>
  C9. In a well-formed window, take a line whose field \<open>bad\<close> raises and whose fields
  \<open>pre\<close> before it do not. The line is reported as a parse error and the reader goes on;
  both group flags, the store and the sample count are as before the line; and yet the
  current record holds the fields of \<open>pre\<close>, assigned in order, and every plot buffer has
  received the values of \<open>pre\<close> routed to it.
\<close>

theorem malformed_after_fields:
  assumes "window_ok w" "dec data = Some tx"
    "str_split CHR '','' (str_strip tx) = pre @ bad # post"
    "no_raise flt pre" "token_of flt bad = Raises e"
  shows "\<exists>w'. process_line dec flt data w = (None, w') \<and>
           ppg_updated w' = ppg_updated w \<and> acc_updated w' = acc_updated w \<and>
           data_records w' = data_records w \<and> sample_count w' = sample_count w \<and>
           current_record w' = assign (parsed_fields flt pre) (current_record w) \<and>
           length (data_buffers w') = length (data_buffers w) \<and>
           (\<forall>i < length (data_buffers w). data_buffers w' ! i =
              snd (push_all (routed i (parsed_fields flt pre)) (data_buffers w ! i))) \<and>
           stdout w' = stdout w @ [Raw_line (str_strip tx), Error_parsing_line ValueError]"
proof -
  from process_line_raise_fields[where dec=dec and data=data, OF assms refl] obtain w1 where
    w1: "untouched (w\<lparr>stdout := stdout w @ [Raw_line (str_strip tx)]\<rparr>) w1"
      "current_record w1 = assign (parsed_fields flt pre) (current_record w)"
      "length (data_buffers w1) = length (data_buffers w)"
      "\<forall>i < length (data_buffers w). data_buffers w1 ! i =
             snd (push_all (routed i (parsed_fields flt pre)) (data_buffers w ! i))"
      "process_line dec flt data w =
            (None, w1\<lparr>stdout := stdout w1 @ [Error_parsing_line ValueError]\<rparr>)"
    by blast
  show ?thesis
    using w1
    by (intro exI[of _ "w1\<lparr>stdout := stdout w1 @ [Error_parsing_line ValueError]\<rparr>"])
       (simp add: untouched_def)
qed

theorem malformed_after_fields_witness:
  "\<exists>w'. process_line Some float_digits ''C:5,R:abc'' (main_window :: real window) = (None, w') \<and>
     \<not> ppg_updated w' \<and> \<not> acc_updated w' \<and> data_records w' = [] \<and> sample_count w' = 0 \<and>
     current_record w' =
       [(''C'', 5), (''R'', 0), (''IR'', 0), (''G'', 0), (''X'', 0), (''Y'', 0), (''Z'', 0)] \<and>
     get_data (data_buffers w' ! 0) = [5] \<and>
     stdout w' = [Raw_line ''C:5,R:abc'', Error_parsing_line ValueError]"
proof -
  let ?l = "''C:5,R:abc''"
  let ?w = "main_window :: real window"
  have sp': "str_split CHR '','' (str_strip ?l) = [''C:5''] @ ''R:abc'' # []"
    by (simp add: example_splits)
  have nr: "no_raise float_digits [''C:5'']"
    by (simp add: no_raise_def example_tokens example_floats)
  have bad: "token_of float_digits ''R:abc'' = Raises ValueError"
    by (simp add: example_tokens example_floats)
  have fs: "parsed_fields float_digits [''C:5''] = [(''C'', 5::real)]"
    by (simp add: parsed_fields_def example_tokens example_floats)
  have d: "Some ?l = Some ?l" by simp
  from malformed_after_fields[where dec=Some and data="?l", OF window_ok_main d sp' nr bad]
  obtain w' where
    w': "process_line Some float_digits ?l ?w = (None, w')"
      "ppg_updated w' = ppg_updated ?w" "acc_updated w' = acc_updated ?w"
      "data_records w' = data_records ?w" "sample_count w' = sample_count ?w"
      "current_record w' = assign (parsed_fields float_digits [''C:5'']) (current_record ?w)"
      "\<forall>i < length (data_buffers ?w). data_buffers w' ! i =
              snd (push_all (routed i (parsed_fields float_digits [''C:5''])) (data_buffers ?w ! i))"
      "stdout w' = stdout ?w @ [Raw_line (str_strip ?l), Error_parsing_line ValueError]"
    by blast
  have "data_buffers w' ! 0 = snd (push_all (routed 0 [(''C'', 5)]) (data_buffers ?w ! 0))"
    using w'(7) by (simp add: main_window_simps fs)
  also have "\<dots> = snd (push_all [5] (CircularBuffer_init 1000))"
    by (simp add: routed_def sensor_map_def main_window_simps del: push_all.simps)
  finally have g: "get_data (data_buffers w' ! 0) = [5]"
    by (simp add: get_data_push_init del: push_all.simps)
  show ?thesis
    using w'(1-6,8) g
    by (intro exI[of _ w']) (simp add: main_window_simps fs assign_def example_strips)
qed

text \<open>
  C2, as stated, fails: the line \<open>C:5,R:abc\<close> has the malformed field \<open>R:abc\<close>, and
  after it the current record holds \<open>C = 5\<close> and the plot buffer of \<open>C\<close> holds the
  sample 5, where both were at their initial contents before.
\<close>

theorem malformed_line_not_discarded:
  "token_of float_digits ''R:abc'' = Raises ValueError \<and>
   map_of (current_record (main_window :: real window)) ''C'' = Some 0 \<and>
   map_of (current_record (snd (process_line Some float_digits ''C:5,R:abc''
      (main_window :: real window)))) ''C'' = Some 5 \<and>
   get_data (data_buffers (main_window :: real window) ! 0) = [] \<and>
   get_data (data_buffers (snd (process_line Some float_digits ''C:5,R:abc''
      (main_window :: real window))) ! 0) = [5]"
proof -
  from example_malformed_line obtain w' where
    w': "process_line Some float_digits ''C:5,R:abc'' (main_window :: real window) = (None, w')"
      "current_record w' =
          [(''C'', 5), (''R'', 0), (''IR'', 0), (''G'', 0), (''X'', 0), (''Y'', 0), (''Z'', 0)]"
      "get_data (data_buffers w' ! 0) = [5]"
    by blast
  have "token_of float_digits ''R:abc'' = Raises ValueError"
    by (simp add: example_tokens example_floats)
  moreover have "get_data (data_buffers (main_window :: real window) ! 0) = []"
    by (simp add: main_window_simps get_data_init)
  ultimately show ?thesis using w' by (simp add: main_window_simps)
qed

text \<open>
  C2, amended. In a well-formed window: a line that does not decode is reported and
  leaves everything but stdout as it was. A field can raise ValueError only. A line
  whose first raising field is \<open>bad\<close>, after the fields \<open>pre\<close>, is reported on stdout;
  no record is stored and the group flags are unchanged; the current record and the plot
  buffers have received the fields of \<open>pre\<close> and nothing of \<open>bad\<close> or of the fields
  after it; when \<open>pre\<close> has no field with a colon, the current record, the buffers and the
  plot items are as before. The reader then goes on with the next line.
\<close>

theorem malformed_line_reported:
  assumes "window_ok w"
  shows "(dec data = None \<longrightarrow>
            process_line dec flt data w =
              (None, w\<lparr>stdout := stdout w @ [Error_parsing_line UnicodeDecodeError]\<rparr>)) \<and>
         (dec data = Some tx \<and> str_split CHR '','' (str_strip tx) = pre @ bad # post \<and>
          no_raise flt pre \<and> token_of flt bad = Raises e \<longrightarrow>
            e = ValueError \<and>
            (\<exists>w'. process_line dec flt data w = (None, w') \<and>
               stdout w' = stdout w @ [Raw_line (str_strip tx), Error_parsing_line ValueError] \<and>
               data_records w' = data_records w \<and> sample_count w' = sample_count w \<and>
               ppg_updated w' = ppg_updated w \<and> acc_updated w' = acc_updated w \<and>
               current_record w' = assign (parsed_fields flt pre) (current_record w) \<and>
               length (data_buffers w') = length (data_buffers w) \<and>
               (\<forall>i < length (data_buffers w). data_buffers w' ! i =
                  snd (push_all (routed i (parsed_fields flt pre)) (data_buffers w ! i))) \<and>
               (parsed_fields flt pre = [] \<longrightarrow>
                  current_record w' = current_record w \<and> data_buffers w' = data_buffers w \<and>
                  plot_data_items w' = plot_data_items w) \<and>
               receive_serial_data dec flt (data # rest) w =
                 receive_serial_data dec flt rest w'))"
proof -
  have 1: "dec data = None \<longrightarrow>
            process_line dec flt data w =
              (None, w\<lparr>stdout := stdout w @ [Error_parsing_line UnicodeDecodeError]\<rparr>)"
    by (simp add: process_line_decode_error)
  have 2: "dec data = Some tx \<and> str_split CHR '','' (str_strip tx) = pre @ bad # post \<and>
          no_raise flt pre \<and> token_of flt bad = Raises e \<longrightarrow>
            e = ValueError \<and>
            (\<exists>w'. process_line dec flt data w = (None, w') \<and>
               stdout w' = stdout w @ [Raw_line (str_strip tx), Error_parsing_line ValueError] \<and>
               data_records w' = data_records w \<and> sample_count w' = sample_count w \<and>
               ppg_updated w' = ppg_updated w \<and> acc_updated w' = acc_updated w \<and>
               current_record w' = assign (parsed_fields flt pre) (current_record w) \<and>
               length (data_buffers w') = length (data_buffers w) \<and>
               (\<forall>i < length (data_buffers w). data_buffers w' ! i =
                  snd (push_all (routed i (parsed_fields flt pre)) (data_buffers w ! i))) \<and>
               (parsed_fields flt pre = [] \<longrightarrow>
                  current_record w' = current_record w \<and> data_buffers w' = data_buffers w \<and>
                  plot_data_items w' = plot_data_items w) \<and>
               receive_serial_data dec flt (data # rest) w =
                 receive_serial_data dec flt rest w')"
  proof
    assume a: "dec data = Some tx \<and> str_split CHR '','' (str_strip tx) = pre @ bad # post \<and>
          no_raise flt pre \<and> token_of flt bad = Raises e"
    then have d: "dec data = Some tx"
      and sp: "str_split CHR '','' (str_strip tx) = pre @ bad # post"
      and nr: "no_raise flt pre" and bad: "token_of flt bad = Raises e" by simp_all
    from process_line_raise_fields[where dec=dec and data=data, OF assms d sp nr bad refl]
    obtain w1 where
      w1: "untouched (w\<lparr>stdout := stdout w @ [Raw_line (str_strip tx)]\<rparr>) w1"
        "current_record w1 = assign (parsed_fields flt pre) (current_record w)"
        "length (data_buffers w1) = length (data_buffers w)"
        "\<forall>i < length (data_buffers w). data_buffers w1 ! i =
             snd (push_all (routed i (parsed_fields flt pre)) (data_buffers w ! i))"
        "parsed_fields flt pre = [] \<longrightarrow>
           w1 = w\<lparr>stdout := stdout w @ [Raw_line (str_strip tx)]\<rparr>"
        "e = ValueError"
        "process_line dec flt data w =
            (None, w1\<lparr>stdout := stdout w1 @ [Error_parsing_line ValueError]\<rparr>)"
      by blast
    let ?w' = "w1\<lparr>stdout := stdout w1 @ [Error_parsing_line ValueError]\<rparr>"
    have nf: "parsed_fields flt pre = [] \<longrightarrow>
                  current_record ?w' = current_record w \<and> data_buffers ?w' = data_buffers w \<and>
                  plot_data_items ?w' = plot_data_items w"
    proof
      assume "parsed_fields flt pre = []"
      then have "w1 = w\<lparr>stdout := stdout w @ [Raw_line (str_strip tx)]\<rparr>" using w1(5) by simp
      then show "current_record ?w' = current_record w \<and> data_buffers ?w' = data_buffers w \<and>
                  plot_data_items ?w' = plot_data_items w"
        by simp
    qed
    have run: "receive_serial_data dec flt (data # rest) w = receive_serial_data dec flt rest ?w'"
      using w1(7) by simp
    have "\<exists>w'. process_line dec flt data w = (None, w') \<and>
               stdout w' = stdout w @ [Raw_line (str_strip tx), Error_parsing_line ValueError] \<and>
               data_records w' = data_records w \<and> sample_count w' = sample_count w \<and>
               ppg_updated w' = ppg_updated w \<and> acc_updated w' = acc_updated w \<and>
               current_record w' = assign (parsed_fields flt pre) (current_record w) \<and>
               length (data_buffers w') = length (data_buffers w) \<and>
               (\<forall>i < length (data_buffers w). data_buffers w' ! i =
                  snd (push_all (routed i (parsed_fields flt pre)) (data_buffers w ! i))) \<and>
               (parsed_fields flt pre = [] \<longrightarrow>
                  current_record w' = current_record w \<and> data_buffers w' = data_buffers w \<and>
                  plot_data_items w' = plot_data_items w) \<and>
               receive_serial_data dec flt (data # rest) w =
                 receive_serial_data dec flt rest w'"
      using w1(1-4,7) nf run
      by (intro exI[of _ ?w']) (simp add: untouched_def)
    then show "e = ValueError \<and>
            (\<exists>w'. process_line dec flt data w = (None, w') \<and>
               stdout w' = stdout w @ [Raw_line (str_strip tx), Error_parsing_line ValueError] \<and>
               data_records w' = data_records w \<and> sample_count w' = sample_count w \<and>
               ppg_updated w' = ppg_updated w \<and> acc_updated w' = acc_updated w \<and>
               current_record w' = assign (parsed_fields flt pre) (current_record w) \<and>
               length (data_buffers w') = length (data_buffers w) \<and>
               (\<forall>i < length (data_buffers w). data_buffers w' ! i =
                  snd (push_all (routed i (parsed_fields flt pre)) (data_buffers w ! i))) \<and>
               (parsed_fields flt pre = [] \<longrightarrow>
                  current_record w' = current_record w \<and> data_buffers w' = data_buffers w \<and>
                  plot_data_items w' = plot_data_items w) \<and>
               receive_serial_data dec flt (data # rest) w =
                 receive_serial_data dec flt rest w')"
      using w1(6) by blast
  qed
  show ?thesis using 1 2 by blast
qed


theorem malformed_line_reported_witness:
  "window_ok (main_window :: real window) \<and>
   process_line (\<lambda>_. None) float_digits ''C:5'' (main_window :: real window) =
     (None, main_window\<lparr>stdout := [Error_parsing_line UnicodeDecodeError]\<rparr>) \<and>
   str_split CHR '','' (str_strip ''C:5,R:abc,X:7'') = [''C:5''] @ ''R:abc'' # [''X:7''] \<and>
   no_raise float_digits [''C:5''] \<and>
   token_of float_digits ''R:abc'' = Raises ValueError \<and>
   (\<exists>w'. process_line Some float_digits ''C:5,R:abc,X:7'' (main_window :: real window) =
           (None, w') \<and>
      stdout w' = [Raw_line ''C:5,R:abc,X:7'', Error_parsing_line ValueError] \<and>
      data_records w' = [] \<and> sample_count w' = 0 \<and>
      \<not> ppg_updated w' \<and> \<not> acc_updated w' \<and>
      current_record w' =
        [(''C'', 5), (''R'', 0), (''IR'', 0), (''G'', 0), (''X'', 0), (''Y'', 0), (''Z'', 0)] \<and>
      get_data (data_buffers w' ! 0) = [5] \<and>
      get_data (data_buffers w' ! 4) = [] \<and>
      receive_serial_data Some float_digits [''C:5,R:abc,X:7''] (main_window :: real window) =
        (None, w')) \<and>
   str_split CHR '','' (str_strip ''R:abc,C:5'') = [] @ ''R:abc'' # [''C:5''] \<and>
   parsed_fields float_digits [] = ([] :: (string \<times> real) list) \<and>
   (\<exists>w'. process_line Some float_digits ''R:abc,C:5'' (main_window :: real window) = (None, w') \<and>
      stdout w' = [Raw_line ''R:abc,C:5'', Error_parsing_line ValueError] \<and>
      data_records w' = [] \<and> \<not> ppg_updated w' \<and> \<not> acc_updated w' \<and>
      current_record w' = current_record (main_window :: real window) \<and>
      data_buffers w' = data_buffers (main_window :: real window) \<and>
      receive_serial_data Some float_digits [''R:abc,C:5''] (main_window :: real window) =
        (None, w'))"
proof -
  let ?w = "main_window :: real window"
  let ?l = "''R:abc,C:5''"
  let ?m = "''C:5,R:abc,X:7''"
  have ok: "window_ok ?w" by (rule window_ok_main)
  have st: "str_strip ?l = ?l" by (simp add: str_strip_def py_isspace_def)
  have sp: "str_split CHR '','' (str_strip ?l) = [] @ ''R:abc'' # [''C:5'']"
    by (simp add: str_strip_def py_isspace_def)
  have stm: "str_strip ?m = ?m" by (simp add: str_strip_def py_isspace_def)
  have spm: "str_split CHR '','' (str_strip ?m) = [''C:5''] @ ''R:abc'' # [''X:7'']"
    by (simp add: str_strip_def py_isspace_def)
  have bad: "token_of float_digits ''R:abc'' = Raises ValueError"
    by (simp add: example_tokens example_floats)
  have nr: "no_raise float_digits []" by (simp add: no_raise_def)
  have nf: "parsed_fields float_digits [] = ([] :: (string \<times> real) list)"
    by (simp add: parsed_fields_def)
  have nrm: "no_raise float_digits [''C:5'']"
    by (simp add: no_raise_def example_tokens example_floats)
  have fsm: "parsed_fields float_digits [''C:5''] = [(''C'', 5::real)]"
    by (simp add: parsed_fields_def example_tokens example_floats)
  have a: "process_line (\<lambda>_. None) float_digits ''C:5'' ?w =
     (None, ?w\<lparr>stdout := [Error_parsing_line UnicodeDecodeError]\<rparr>)"
    using malformed_line_reported[OF ok, where dec = "\<lambda>_. None" and data = "''C:5''"
        and flt = float_digits]
    by (simp add: main_window_simps)
  have b: "\<exists>w'. process_line Some float_digits ?l ?w = (None, w') \<and>
      stdout w' = [Raw_line ?l, Error_parsing_line ValueError] \<and>
      data_records w' = [] \<and> \<not> ppg_updated w' \<and> \<not> acc_updated w' \<and>
      current_record w' = current_record ?w \<and> data_buffers w' = data_buffers ?w \<and>
      receive_serial_data Some float_digits [?l] ?w = (None, w')"
    using malformed_line_reported[OF ok, where dec = Some and data = ?l and tx = ?l
        and flt = float_digits and pre = "[]" and bad = "''R:abc''" and post = "[''C:5'']"
        and e = ValueError and rest = "[]"] sp bad nr nf
    by (simp add: main_window_simps st assign_def del: receive_serial_data.simps) auto
  from malformed_line_reported[OF ok, where dec = Some and data = ?m and tx = ?m
        and flt = float_digits and pre = "[''C:5'']" and bad = "''R:abc''" and post = "[''X:7'']"
        and e = ValueError and rest = "[]", THEN conjunct2] spm bad nrm
  obtain w' where
    w': "process_line Some float_digits ?m ?w = (None, w')"
      "stdout w' = stdout ?w @ [Raw_line (str_strip ?m), Error_parsing_line ValueError]"
      "data_records w' = data_records ?w" "sample_count w' = sample_count ?w"
      "ppg_updated w' = ppg_updated ?w" "acc_updated w' = acc_updated ?w"
      "current_record w' = assign (parsed_fields float_digits [''C:5'']) (current_record ?w)"
      "\<forall>i < length (data_buffers ?w). data_buffers w' ! i =
          snd (push_all (routed i (parsed_fields float_digits [''C:5''])) (data_buffers ?w ! i))"
      "receive_serial_data Some float_digits (?m # []) ?w =
         receive_serial_data Some float_digits [] w'"
    by (auto simp del: receive_serial_data.simps)
  have "data_buffers w' ! 0 = snd (push_all (routed 0 [(''C'', 5)]) (data_buffers ?w ! 0))"
    using w'(8) by (simp add: main_window_simps fsm)
  also have "\<dots> = snd (push_all [5] (CircularBuffer_init 1000))"
    by (simp add: routed_def sensor_map_def main_window_simps del: push_all.simps)
  finally have g0: "get_data (data_buffers w' ! 0) = [5]"
    by (simp add: get_data_push_init del: push_all.simps)
  have "data_buffers w' ! 4 = snd (push_all (routed 4 [(''C'', 5)]) (data_buffers ?w ! 4))"
    using w'(8) by (simp add: main_window_simps fsm)
  also have "\<dots> = CircularBuffer_init 1000"
    by (simp add: routed_def sensor_map_def main_window_simps)
  finally have g4: "get_data (data_buffers w' ! 4) = []"
    by (simp add: get_data_init)
  have c: "\<exists>w'. process_line Some float_digits ?m ?w = (None, w') \<and>
      stdout w' = [Raw_line ?m, Error_parsing_line ValueError] \<and>
      data_records w' = [] \<and> sample_count w' = 0 \<and>
      \<not> ppg_updated w' \<and> \<not> acc_updated w' \<and>
      current_record w' =
        [(''C'', 5), (''R'', 0), (''IR'', 0), (''G'', 0), (''X'', 0), (''Y'', 0), (''Z'', 0)] \<and>
      get_data (data_buffers w' ! 0) = [5] \<and>
      get_data (data_buffers w' ! 4) = [] \<and>
      receive_serial_data Some float_digits [?m] ?w = (None, w')"
    using w'(1-7,9) g0 g4
    by (intro exI[of _ w']) (simp add: main_window_simps fsm assign_def stm)
  show ?thesis using ok a spm nrm bad c sp nf b by (simp only: simp_thms)
qed

section \<open>Names outside the seven channels\<close>







end
